theory Spec2Isabelle
  imports Complex_Main "HOL-Library.Word"
begin

section \<open>Host values of the worker\<close>

text \<open>
  The worker (\<^verbatim>\<open>src/worker/mqtt_publisher.py\<close>) and the sink bridge
  (\<^verbatim>\<open>src/telegraf/mqtt_to_timescaledb.py\<close>) are Python programs. A Python \<^verbatim>\<open>str\<close>
  is a sequence of code points and \<^verbatim>\<open>len\<close> counts code points, so a string is a list
  of naturals here; \<open>ascii\<close> embeds the literals of the source. A \<^verbatim>\<open>bytes\<close> value is a
  list of 8-bit words. A Python \<^verbatim>\<open>float\<close> is the real number it denotes or one of the
  three non-numbers of IEEE 754.
\<close>

type_synonym pystr = "nat list"

type_synonym byte = "8 word"

definition ascii :: "string \<Rightarrow> pystr" where
  "ascii s = map of_char s"

datatype pyfloat = Finite real | PosInf | NegInf | NaN

text \<open>
  A host object as the code observes it: the four primitive kinds the decoder may return,
  \<^verbatim>\<open>None\<close>, and any other object (a list, a dict, a tuple, a library object), of which
  only the truth value and the \<^verbatim>\<open>str()\<close> are ever looked at.
\<close>

datatype pyval =
    PInt int | PFloat pyfloat | PBool bool | PStr pystr | PNone | POther bool pystr

datatype exn =
    ValueError | TypeError | OverflowError | StructError | UnicodeDecodeError
  | StopIteration | LibraryError

text \<open>\<^verbatim>\<open>isinstance(x, (int, float, bool))\<close> and \<^verbatim>\<open>isinstance(x, (int, float, bool, str))\<close>.\<close>

fun isinstance_num :: "pyval \<Rightarrow> bool" where
  "isinstance_num (PInt _) = True"
| "isinstance_num (PFloat _) = True"
| "isinstance_num (PBool _) = True"
| "isinstance_num _ = False"

fun isinstance_prim :: "pyval \<Rightarrow> bool" where
  "isinstance_prim (PStr _) = True"
| "isinstance_prim x = isinstance_num x"

text \<open>Truth value of a host object (\<^verbatim>\<open>if x:\<close>). A NaN is true.\<close>

fun truthy :: "pyval \<Rightarrow> bool" where
  "truthy (PInt i) = (i \<noteq> 0)"
| "truthy (PFloat f) = (f \<noteq> Finite 0)"
| "truthy (PBool b) = b"
| "truthy (PStr s) = (s \<noteq> [])"
| "truthy PNone = False"
| "truthy (POther t _) = t"

text \<open>
  The grammar of the literals that \<^verbatim>\<open>int(s)\<close> and \<^verbatim>\<open>float(s)\<close> accept is Python's
  own and is not part of the repository: both parsers are parameters. \<open>None\<close> stands
  for \<^verbatim>\<open>ValueError\<close>.
\<close>

record builtins =
  int_of_str :: "pystr \<Rightarrow> int option"
  float_of_str :: "pystr \<Rightarrow> pyfloat option"

text \<open>
  \<^verbatim>\<open>float(i)\<close> of an integer is the double nearest to it, a tie going to the even
  significand of 53 bits: \<open>excess_bits\<close> counts the bits of the magnitude beyond 53, which
  are rounded away. An integer that rounds beyond the largest double raises
  \<^verbatim>\<open>OverflowError\<close>.
\<close>

function excess_bits :: "int \<Rightarrow> nat" where
  "excess_bits m = (if m < 2 ^ 53 then 0 else Suc (excess_bits (m div 2)))"
  by pat_completeness auto
termination
  by (relation "measure nat") auto

definition nearest_double :: "int \<Rightarrow> int" where
  "nearest_double i =
     (let m = \<bar>i\<bar>;
          e = excess_bits m;
          q = m div 2 ^ e;
          r = m mod 2 ^ e;
          q' = (if 2 ^ e < 2 * r \<or> (2 * r = 2 ^ e \<and> odd q) then q + 1 else q)
      in sgn i * (q' * 2 ^ e))"

definition float_max_int :: int where
  "float_max_int = 2 ^ 1024 - 2 ^ 970"

text \<open>
  \<^verbatim>\<open>float(x)\<close> and \<^verbatim>\<open>int(x)\<close> on a host object; \<^verbatim>\<open>int\<close> truncates a float towards
  zero.
\<close>

fun py_float :: "builtins \<Rightarrow> pyval \<Rightarrow> exn + pyfloat" where
  "py_float env (PInt i) =
     (if \<bar>i\<bar> < float_max_int then Inr (Finite (of_int (nearest_double i)))
      else Inl OverflowError)"
| "py_float env (PFloat f) = Inr f"
| "py_float env (PBool b) = Inr (Finite (if b then 1 else 0))"
| "py_float env (PStr s) =
     (case float_of_str env s of Some f \<Rightarrow> Inr f | None \<Rightarrow> Inl ValueError)"
| "py_float env PNone = Inl TypeError"
| "py_float env (POther _ _) = Inl TypeError"

definition trunc_real :: "real \<Rightarrow> int" where
  "trunc_real r = (if 0 \<le> r then \<lfloor>r\<rfloor> else \<lceil>r\<rceil>)"

fun py_int :: "builtins \<Rightarrow> pyval \<Rightarrow> exn + int" where
  "py_int env (PInt i) = Inr i"
| "py_int env (PFloat (Finite r)) = Inr (trunc_real r)"
| "py_int env (PFloat NaN) = Inl ValueError"
| "py_int env (PFloat _) = Inl OverflowError"
| "py_int env (PBool b) = Inr (if b then 1 else 0)"
| "py_int env (PStr s) =
     (case int_of_str env s of Some i \<Rightarrow> Inr i | None \<Rightarrow> Inl ValueError)"
| "py_int env PNone = Inl TypeError"
| "py_int env (POther _ _) = Inl TypeError"

subsection \<open>Strings\<close>

text \<open>\<^verbatim>\<open>sub in s\<close> and \<^verbatim>\<open>s.strip()\<close> (which strips Unicode white space).\<close>

primrec str_contains :: "pystr \<Rightarrow> pystr \<Rightarrow> bool" where
  "str_contains [] sub = (sub = [])"
| "str_contains (c # cs) sub = (take (length sub) (c # cs) = sub \<or> str_contains cs sub)"

definition is_space :: "nat \<Rightarrow> bool" where
  "is_space c =
     (c \<in> set ([9, 10, 11, 12, 13, 28, 29, 30, 31, 32, 133, 160, 5760]
               @ [8192 ..< 8203] @ [8232, 8233, 8239, 8287, 12288]))"

definition strip :: "pystr \<Rightarrow> pystr" where
  "strip s = rev (dropWhile is_space (rev (dropWhile is_space s)))"

subsection \<open>Bytes\<close>

text \<open>\<^verbatim>\<open>int.from_bytes(data, byteorder='big')\<close>, unsigned and \<^verbatim>\<open>signed=True\<close>.\<close>

definition from_bytes_big :: "byte list \<Rightarrow> int" where
  "from_bytes_big bs = foldl (\<lambda>acc b. acc * 256 + uint b) 0 bs"

definition from_bytes_big_signed :: "byte list \<Rightarrow> int" where
  "from_bytes_big_signed bs =
     (let n = from_bytes_big bs
      in if bs \<noteq> [] \<and> 2 ^ (8 * length bs - 1) \<le> n then n - 2 ^ (8 * length bs) else n)"

text \<open>
  \<^verbatim>\<open>struct.unpack(fmt, data)[0]\<close> for the formats the decoder uses. Each format has a
  fixed size; data of another length raises \<^verbatim>\<open>struct.error\<close>.
\<close>

fun unpack_H :: "byte list \<Rightarrow> exn + int" where
  "unpack_H [a, b] = Inr (uint a * 256 + uint b)"
| "unpack_H _ = Inl StructError"

fun unpack_I :: "byte list \<Rightarrow> exn + int" where
  "unpack_I [a, b, c, d] = Inr (((uint a * 256 + uint b) * 256 + uint c) * 256 + uint d)"
| "unpack_I _ = Inl StructError"

fun unpack_b :: "byte list \<Rightarrow> exn + int" where
  "unpack_b [a] = Inr (sint a)"
| "unpack_b _ = Inl StructError"

fun unpack_h :: "byte list \<Rightarrow> exn + int" where
  "unpack_h [a, b] = Inr (sint (word_of_int (uint a * 256 + uint b) :: 16 word))"
| "unpack_h _ = Inl StructError"

fun unpack_i :: "byte list \<Rightarrow> exn + int" where
  "unpack_i [a, b, c, d] =
     Inr (sint (word_of_int (((uint a * 256 + uint b) * 256 + uint c) * 256 + uint d) :: 32 word))"
| "unpack_i _ = Inl StructError"

text \<open>
  An IEEE 754 binary format with \<open>e\<close> exponent bits and \<open>f\<close> fraction bits, read from
  the unsigned value \<open>n\<close> of its big-endian bytes.
\<close>

definition ieee_decode :: "nat \<Rightarrow> nat \<Rightarrow> int \<Rightarrow> pyfloat" where
  "ieee_decode e f n =
     (let negative = (n div 2 ^ (e + f)) mod 2 = 1;
          ex = nat ((n div 2 ^ f) mod 2 ^ e);
          frac = n mod 2 ^ f;
          bias = 2 ^ (e - 1) - 1 + f;
          mag = (if ex = 0 then of_int (frac * 2) / 2 ^ bias
                 else of_int ((2 ^ f + frac) * 2 ^ ex) / 2 ^ bias)
      in if ex = 2 ^ e - 1
         then (if frac \<noteq> 0 then NaN else if negative then NegInf else PosInf)
         else Finite (if negative then - mag else mag))"

definition unpack_f :: "byte list \<Rightarrow> exn + pyfloat" where
  "unpack_f d = (if length d = 4 then Inr (ieee_decode 8 23 (from_bytes_big d)) else Inl StructError)"

definition unpack_d :: "byte list \<Rightarrow> exn + pyfloat" where
  "unpack_d d = (if length d = 8 then Inr (ieee_decode 11 52 (from_bytes_big d)) else Inl StructError)"

text \<open>
  \<^verbatim>\<open>data.decode('utf-8')\<close>: strict UTF-8, refusing stray continuation bytes, overlong
  forms, surrogates and code points past U+10FFFF. \<open>None\<close> stands for
  \<^verbatim>\<open>UnicodeDecodeError\<close>.
\<close>

definition is_cont :: "nat \<Rightarrow> bool" where
  "is_cont b = (128 \<le> b \<and> b < 192)"

fun utf8_points :: "nat list \<Rightarrow> pystr option" where
  "utf8_points [] = Some []"
| "utf8_points (a # bs) =
     (if a < 128 then map_option ((#) a) (utf8_points bs)
      else if 194 \<le> a \<and> a < 224 then
        (case bs of
           b # r \<Rightarrow>
             if is_cont b then map_option ((#) ((a - 192) * 64 + (b - 128))) (utf8_points r)
             else None
         | _ \<Rightarrow> None)
      else if 224 \<le> a \<and> a < 240 then
        (case bs of
           b # c # r \<Rightarrow>
             (let cp = ((a - 224) * 64 + (b - 128)) * 64 + (c - 128)
              in if is_cont b \<and> is_cont c \<and> 2048 \<le> cp \<and> \<not> (55296 \<le> cp \<and> cp < 57344)
                 then map_option ((#) cp) (utf8_points r) else None)
         | _ \<Rightarrow> None)
      else if 240 \<le> a \<and> a < 245 then
        (case bs of
           b # c # d # r \<Rightarrow>
             (let cp = (((a - 240) * 64 + (b - 128)) * 64 + (c - 128)) * 64 + (d - 128)
              in if is_cont b \<and> is_cont c \<and> is_cont d \<and> 65536 \<le> cp \<and> cp < 1114112
                 then map_option ((#) cp) (utf8_points r) else None)
         | _ \<Rightarrow> None)
      else None)"

definition decode_utf8 :: "byte list \<Rightarrow> exn + pystr" where
  "decode_utf8 d =
     (case utf8_points (map unat d) of Some s \<Rightarrow> Inr s | None \<Rightarrow> Inl UnicodeDecodeError)"

section \<open>The value decoder: \<^verbatim>\<open>extract_value\<close>\<close>

text \<open>
  The decoder receives whatever the BACnet library put into \<^verbatim>\<open>propertyValue\<close> and
  looks at it in four ways only: \<^verbatim>\<open>isinstance\<close> on the object itself, its attribute
  \<^verbatim>\<open>value\<close>, its \<^verbatim>\<open>str()\<close>, and its attribute \<^verbatim>\<open>tagList\<close>. The record holds what
  each of the four gives. \<^verbatim>\<open>str()\<close> runs the object's own \<^verbatim>\<open>__str__\<close> and may raise:
  \<open>str_raises\<close> is the exception then, and \<open>as_str\<close> the string otherwise.
\<close>

record tag =
  tag_number :: int
  tag_data :: "byte list"

record bacnet_value =
  host :: "pyval option"
  value_attr :: "pyval option"
  str_raises :: "exn option"
  as_str :: pystr
  tagList :: "tag list option"

text \<open>The branch on \<^verbatim>\<open>tag_number\<close>, lines 450 to 485.\<close>

definition returns :: "pyval \<Rightarrow> exn + pyval option" where
  "returns x = Inr (Some x)"

definition decode_tag :: "tag \<Rightarrow> exn + pyval option" where
  "decode_tag t =
     (let n = tag_number t; d = tag_data t
      in if d = [] then Inr None
         else if n = 1 then returns (PBool (uint (hd d) \<noteq> 0))
         else if n = 2 then
           (if length d = 1 then returns (PInt (uint (hd d)))
            else if length d = 2 then map_sum id (Some \<circ> PInt) (unpack_H d)
            else if length d = 4 then map_sum id (Some \<circ> PInt) (unpack_I d)
            else returns (PInt (from_bytes_big d)))
         else if n = 3 then
           (if length d = 1 then map_sum id (Some \<circ> PInt) (unpack_b d)
            else if length d = 2 then map_sum id (Some \<circ> PInt) (unpack_h d)
            else if length d = 4 then map_sum id (Some \<circ> PInt) (unpack_i d)
            else returns (PInt (from_bytes_big_signed d)))
         else if n = 4 then map_sum id (Some \<circ> PFloat) (unpack_f d)
         else if n = 5 then map_sum id (Some \<circ> PFloat) (unpack_d d)
         else if n = 7 then map_sum id (Some \<circ> PStr) (decode_utf8 d)
         else if n = 9 then returns (PInt (from_bytes_big d))
         else Inr None)"

text \<open>
  Lines 433 to 488: the first tag with data, else the first tag; no tag list, or an
  empty one, gives \<^verbatim>\<open>None\<close>.
\<close>

definition from_tags :: "bacnet_value \<Rightarrow> exn + pyval option" where
  "from_tags v =
     (case tagList v of
        None \<Rightarrow> Inr None
      | Some [] \<Rightarrow> Inr None
      | Some (t0 # ts) \<Rightarrow>
          decode_tag (case find (\<lambda>t. tag_data t \<noteq> []) (t0 # ts) of
                        Some t \<Rightarrow> t | None \<Rightarrow> t0))"

text \<open>Lines 492 to 506: the clean string is parsed as a number, else returned if short.\<close>

definition parse_clean :: "builtins \<Rightarrow> pystr \<Rightarrow> pyval option" where
  "parse_clean env value_str =
     (let value_clean = strip value_str;
          number = (if 46 \<in> set value_clean
                    then map_option PFloat (float_of_str env value_clean)
                    else map_option PInt (int_of_str env value_clean))
      in case number of
           Some x \<Rightarrow> Some x
         | None \<Rightarrow> if length value_clean < 100 then Some (PStr value_clean) else None)"

definition looks_like_object :: "pystr \<Rightarrow> bool" where
  "looks_like_object s =
     (str_contains s (ascii ''bacpypes3'') \<and> str_contains s (ascii ''object at''))"

definition passes_through :: "bacnet_value \<Rightarrow> pyval option" where
  "passes_through v =
     (case host v of
        Some h \<Rightarrow> if isinstance_num h then Some h else None
      | None \<Rightarrow> None)"

definition value_of_attr :: "bacnet_value \<Rightarrow> pyval option" where
  "value_of_attr v =
     (case value_attr v of
        Some x \<Rightarrow> if isinstance_prim x then Some x else None
      | None \<Rightarrow> None)"

text \<open>The body of the \<^verbatim>\<open>try\<close> block, lines 416 to 506; \<^verbatim>\<open>str()\<close> is called on line 428.\<close>

definition extract_value_body :: "builtins \<Rightarrow> bacnet_value \<Rightarrow> exn + pyval option" where
  "extract_value_body env v =
     (case passes_through v of
        Some h \<Rightarrow> Inr (Some h)
      | None \<Rightarrow>
         (case value_of_attr v of
            Some x \<Rightarrow> Inr (Some x)
          | None \<Rightarrow>
              (case str_raises v of
                 Some e \<Rightarrow> Inl e
               | None \<Rightarrow>
                   if looks_like_object (as_str v) then from_tags v
                   else Inr (parse_clean env (as_str v)))))"

text \<open>
  \<^verbatim>\<open>except Exception\<close>, lines 508 to 511. The handler logs the exception and then, on
  line 510, formats the payload itself into a debug line, which calls \<^verbatim>\<open>str()\<close> on it
  once more, outside any \<^verbatim>\<open>try\<close>; only then does it return \<^verbatim>\<open>None\<close>.
\<close>

definition extract_value :: "builtins \<Rightarrow> bacnet_value \<Rightarrow> exn + pyval option" where
  "extract_value env v =
     (case extract_value_body env v of
        Inr r \<Rightarrow> Inr r
      | Inl e \<Rightarrow> (case str_raises v of Some e' \<Rightarrow> Inl e' | None \<Rightarrow> Inr None))"

section \<open>Reading a point: \<^verbatim>\<open>read_with_retry\<close>\<close>

text \<open>
  The retry configuration is set in \<^verbatim>\<open>__init__\<close> (lines 82 to 84). What one attempt
  meets is the environment's: the request times out, raises another exception, comes
  back without a \<^verbatim>\<open>propertyValue\<close> (a falsy response, or an error reply of the peer),
  or comes back with one.
\<close>

record retry_config =
  max_retries :: nat
  base_timeout :: nat
  exponential_backoff :: bool

definition default_config :: retry_config where
  "default_config = \<lparr>max_retries = 3, base_timeout = 6000, exponential_backoff = True\<rparr>"

datatype response = TimedOut | Raised | NoPropertyValue | PropertyValue bacnet_value

text \<open>What the worker does to the outside, in order; times in milliseconds.\<close>

datatype io_event = ReadRequest nat nat | Sleep nat

definition timeout_for :: "retry_config \<Rightarrow> nat \<Rightarrow> nat" where
  "timeout_for c attempt =
     (if exponential_backoff c \<and> attempt > 0 then base_timeout c * 2 ^ (attempt - 1)
      else base_timeout c)"

definition pause :: "retry_config \<Rightarrow> nat \<Rightarrow> io_event list" where
  "pause c attempt = (if attempt < max_retries c then [Sleep 500] else [])"

text \<open>
  The \<^verbatim>\<open>for\<close> loop of lines 371 to 411 over the attempts still to make. The network is
  a function of the attempt and its timeout. An event \<open>ReadRequest attempt timeout\<close> is a
  request sent. The decoder is called inside the \<^verbatim>\<open>try\<close> (line 395): an exception that
  leaves it is met by the handler of line 404 like one of the request.
\<close>

fun retry_loop ::
  "retry_config \<Rightarrow> builtins \<Rightarrow> (nat \<Rightarrow> nat \<Rightarrow> response) \<Rightarrow> nat list
     \<Rightarrow> io_event list \<times> pyval option" where
  "retry_loop c env net [] = ([], None)"
| "retry_loop c env net (attempt # rest) =
     (let timeout = timeout_for c attempt
      in case net attempt timeout of
           PropertyValue v \<Rightarrow>
             (case extract_value env v of
                Inr decoded \<Rightarrow> ([ReadRequest attempt timeout], decoded)
              | Inl e \<Rightarrow>
                  (let (evs, r) = retry_loop c env net rest
                   in (ReadRequest attempt timeout # pause c attempt @ evs, r)))
         | NoPropertyValue \<Rightarrow>
             (let (evs, r) = retry_loop c env net rest
              in (ReadRequest attempt timeout # evs, r))
         | TimedOut \<Rightarrow>
             (let (evs, r) = retry_loop c env net rest
              in (ReadRequest attempt timeout # pause c attempt @ evs, r))
         | Raised \<Rightarrow>
             (let (evs, r) = retry_loop c env net rest
              in (ReadRequest attempt timeout # pause c attempt @ evs, r)))"

text \<open>
  What the BACnet library accepts is the library's: whether \<^verbatim>\<open>Address(f"{ip}:{port}")\<close>
  and \<^verbatim>\<open>ObjectIdentifier(f"{type},{instance}")\<close> can be built from the parts
  formatted into them, whether \<^verbatim>\<open>Unsigned(n)\<close> takes the integer, and whether the call
  \<^verbatim>\<open>Null()\<close>, without an argument, gives a value that a request takes as its
  \<^verbatim>\<open>propertyValue\<close>.
\<close>

record bacpypes =
  Address_ok :: "pyval \<Rightarrow> int \<Rightarrow> bool"
  ObjectIdentifier_ok :: "pyval \<Rightarrow> pyval \<Rightarrow> bool"
  Unsigned_ok :: "int \<Rightarrow> bool"
  Null_ok :: bool

definition obj_type_map_read :: "(pystr \<times> pystr) list" where
  "obj_type_map_read =
     [(ascii ''analog-input'', ascii ''analogInput''),
      (ascii ''analog-output'', ascii ''analogOutput''),
      (ascii ''analog-value'', ascii ''analogValue''),
      (ascii ''binary-input'', ascii ''binaryInput''),
      (ascii ''binary-output'', ascii ''binaryOutput''),
      (ascii ''binary-value'', ascii ''binaryValue''),
      (ascii ''multi-state-input'', ascii ''multiStateInput''),
      (ascii ''multi-state-output'', ascii ''multiStateOutput''),
      (ascii ''multi-state-value'', ascii ''multiStateValue''),
      (ascii ''date-value'', ascii ''dateValue'')]"

text \<open>
  \<^verbatim>\<open>Address(...)\<close> and \<^verbatim>\<open>ObjectIdentifier(...)\<close> are built before the loop, outside any
  \<^verbatim>\<open>try\<close>: when the library refuses the target the call raises and no attempt is made.
\<close>

definition read_with_retry ::
  "retry_config \<Rightarrow> builtins \<Rightarrow> bacpypes \<Rightarrow> (nat \<Rightarrow> nat \<Rightarrow> response)
     \<Rightarrow> pystr \<Rightarrow> int \<Rightarrow> pystr \<Rightarrow> int \<Rightarrow> io_event list \<times> (exn + pyval option)" where
  "read_with_retry c env lib net device_ip device_port object_type object_instance =
     (let obj_type_bacnet =
            (case map_of obj_type_map_read object_type of Some b \<Rightarrow> b | None \<Rightarrow> object_type)
      in if Address_ok lib (PStr device_ip) device_port
            \<and> ObjectIdentifier_ok lib (PStr obj_type_bacnet) (PInt object_instance)
         then (let (evs, r) = retry_loop c env net [0 ..< max_retries c + 1]
               in (evs, Inr r))
         else ([], Inl LibraryError))"

text \<open>The requests among the events of a read, as pairs of attempt and timeout.\<close>

fun requests :: "io_event list \<Rightarrow> (nat \<times> nat) list" where
  "requests [] = []"
| "requests (ReadRequest a t # evs) = (a, t) # requests evs"
| "requests (Sleep ms # evs) = requests evs"

section \<open>Publishing a reading: \<^verbatim>\<open>publish_individual_topic\<close>\<close>

text \<open>A row of \<^verbatim>\<open>get_enabled_points\<close>: the columns the poll cycle uses.\<close>

record point =
  point_id :: int
  pollInterval :: int
  mqttTopic :: "pystr option"
  qos :: int
  units :: "pystr option"
  dis :: "pystr option"
  haystackPointName :: "pystr option"
  ipAddress :: pystr
  port :: int
  deviceId :: int
  objectType :: pystr
  objectInstance :: int
  siteId :: "pystr option"
  equipmentType :: "pystr option"
  equipmentId :: "pystr option"

text \<open>The payload dictionary of lines 632 to 643, and the message handed to the broker.\<close>

record individual_payload =
  payload_value :: pyval
  payload_timestamp :: pystr
  payload_units :: "pystr option"
  payload_quality :: pystr
  payload_dis :: "pystr option"
  payload_haystackName :: "pystr option"
  payload_deviceIp :: pystr
  payload_deviceId :: int
  payload_objectType :: pystr
  payload_objectInstance :: int

record mqtt_message =
  topic :: pystr
  payload :: individual_payload
  message_qos :: int
  retain :: bool

text \<open>
  Lines 620 to 630. \<^verbatim>\<open>bool\<close> is a subclass of \<^verbatim>\<open>int\<close>, so a boolean takes the first
  branch too. \<^verbatim>\<open>json.dumps\<close> writes a float as it is (\<^verbatim>\<open>allow_nan\<close> is left at its
  default), so the value of the payload is the value of \<^verbatim>\<open>clean_value\<close>.
\<close>

fun clean_value :: "builtins \<Rightarrow> pyval \<Rightarrow> exn + pyval" where
  "clean_value env (PStr s) = Inr (PStr s)"
| "clean_value env (POther t s) = Inr (PStr s)"
| "clean_value env PNone = Inr (PStr (ascii ''None''))"
| "clean_value env x = map_sum id PFloat (py_float env x)"

text \<open>
  The whole function, lines 603 to 655: \<open>Some m\<close> when it published \<open>m\<close> and returned
  \<^verbatim>\<open>True\<close>, \<open>None\<close> when it returned \<^verbatim>\<open>False\<close>. Whether the broker client takes the
  message is the environment's.
\<close>

definition publish_individual_topic ::
  "builtins \<Rightarrow> (mqtt_message \<Rightarrow> bool) \<Rightarrow> bool \<Rightarrow> point \<Rightarrow> pyval \<Rightarrow> pystr
     \<Rightarrow> mqtt_message option" where
  "publish_individual_topic env broker_accepts mqtt_connected pt v timestamp =
     (case mqttTopic pt of
        None \<Rightarrow> None
      | Some tp \<Rightarrow>
          if tp = [] \<or> \<not> mqtt_connected then None
          else (case v of
                  PNone \<Rightarrow> None
                | x \<Rightarrow>
                    if (case x of
                          PStr s \<Rightarrow> str_contains s (ascii ''bacpypes3'')
                                    \<or> str_contains s (ascii ''object at'')
                        | _ \<Rightarrow> False)
                    then None
                    else (case clean_value env x of
                            Inl e \<Rightarrow> None
                          | Inr cv \<Rightarrow>
                              (let m = \<lparr>topic = tp,
                                        payload = \<lparr>payload_value = cv,
                                                   payload_timestamp = timestamp,
                                                   payload_units = units pt,
                                                   payload_quality = ascii ''good'',
                                                   payload_dis = dis pt,
                                                   payload_haystackName = haystackPointName pt,
                                                   payload_deviceIp = ipAddress pt,
                                                   payload_deviceId = deviceId pt,
                                                   payload_objectType = objectType pt,
                                                   payload_objectInstance = objectInstance pt\<rparr>,
                                        message_qos = qos pt,
                                        retain = False\<rparr>
                               in if broker_accepts m then Some m else None))))"

section \<open>The poll cycle: \<^verbatim>\<open>poll_and_publish\<close>\<close>

text \<open>
  The environment of one cycle: Python's parsers, the BACnet library, what the network
  answers to each attempt on each point, and the broker client.
\<close>

record world =
  py_of :: builtins
  lib_of :: bacpypes
  net_of :: "point \<Rightarrow> nat \<Rightarrow> nat \<Rightarrow> response"
  broker_of :: "mqtt_message \<Rightarrow> bool"

datatype effect = Reading int "io_event list" | Published mqtt_message

text \<open>
  The locals of \<^verbatim>\<open>poll_and_publish\<close> together with the two fields of the publisher it
  touches inside the loop. \<open>raised\<close> holds the exception that left the loop, if any:
  the loop has no \<^verbatim>\<open>try\<close> of its own around the read or the batch entry, and what
  it did to \<^verbatim>\<open>point_last_poll\<close> before stays done.
\<close>

record tick =
  point_last_poll :: "int \<rightharpoonup> real"
  total_reads :: nat
  successful_reads :: nat
  failed_reads :: nat
  skipped_reads :: nat
  individual_publishes :: nat
  effects :: "effect list"
  raised :: "exn option"

definition present :: "pystr option \<Rightarrow> bool" where
  "present x = (case x of None \<Rightarrow> False | Some s \<Rightarrow> s \<noteq> [])"

text \<open>
  Line 776, the value of the batch entry:
  \<^verbatim>\<open>float(value) if isinstance(value, (int, float)) else value\<close>. The entry itself and the
  batch publication at the end of the cycle are not kept in this model, nor is the
  best-effort update of the \<^verbatim>\<open>Point\<close> row; neither touches the per-point schedule.
\<close>

definition batch_value :: "builtins \<Rightarrow> pyval \<Rightarrow> exn + pyval" where
  "batch_value env x = (if isinstance_num x then map_sum id PFloat (py_float env x) else Inr x)"

text \<open>The body of the loop over the points, lines 725 to 797.\<close>

definition poll_point ::
  "retry_config \<Rightarrow> world \<Rightarrow> bool \<Rightarrow> real \<Rightarrow> int \<Rightarrow> pystr \<Rightarrow> tick \<Rightarrow> point \<Rightarrow> tick" where
  "poll_point c w mqtt_connected current_time next_minute timestamp t pt =
     (case point_last_poll t (point_id pt) of
        None \<Rightarrow>
          t\<lparr>point_last_poll :=
               (point_last_poll t)(point_id pt \<mapsto> of_int (next_minute - pollInterval pt)),
            skipped_reads := skipped_reads t + 1\<rparr>
      | Some last_poll \<Rightarrow>
          if current_time - last_poll < of_int (pollInterval pt)
          then t\<lparr>skipped_reads := skipped_reads t + 1\<rparr>
          else
            (let t1 = t\<lparr>total_reads := total_reads t + 1\<rparr>
             in case read_with_retry c (py_of w) (lib_of w) (net_of w pt) (ipAddress pt)
                       (port pt) (objectType pt) (objectInstance pt) of
                  (evs, Inl e) \<Rightarrow> t1\<lparr>raised := Some e\<rparr>
                | (evs, Inr None) \<Rightarrow>
                    t1\<lparr>effects := effects t1 @ [Reading (point_id pt) evs],
                       failed_reads := failed_reads t1 + 1\<rparr>
                | (evs, Inr (Some PNone)) \<Rightarrow>
                    t1\<lparr>effects := effects t1 @ [Reading (point_id pt) evs],
                       failed_reads := failed_reads t1 + 1\<rparr>
                | (evs, Inr (Some v)) \<Rightarrow>
                    (let t2 = t1\<lparr>effects := effects t1 @ [Reading (point_id pt) evs],
                                 successful_reads := successful_reads t1 + 1,
                                 point_last_poll := (point_last_poll t1)(point_id pt \<mapsto> current_time)\<rparr>;
                         t3 = (case publish_individual_topic (py_of w) (broker_of w)
                                      mqtt_connected pt v timestamp of
                                 Some m \<Rightarrow>
                                   t2\<lparr>effects := effects t2 @ [Published m],
                                      individual_publishes := individual_publishes t2 + 1\<rparr>
                               | None \<Rightarrow> t2)
                     in if present (siteId pt) \<and> present (equipmentType pt)
                           \<and> present (equipmentId pt)
                        then (case batch_value (py_of w) v of
                                Inl e \<Rightarrow> t3\<lparr>raised := Some e\<rparr>
                              | Inr b \<Rightarrow> t3)
                        else t3)))"

fun poll_points ::
  "retry_config \<Rightarrow> world \<Rightarrow> bool \<Rightarrow> real \<Rightarrow> int \<Rightarrow> pystr \<Rightarrow> tick \<Rightarrow> point list \<Rightarrow> tick" where
  "poll_points c w conn current_time next_minute timestamp t [] = t"
| "poll_points c w conn current_time next_minute timestamp t (pt # pts) =
     (let t' = poll_point c w conn current_time next_minute timestamp t pt
      in if raised t' \<noteq> None then t'
         else poll_points c w conn current_time next_minute timestamp t' pts)"

text \<open>
  The state of the publisher that outlives a cycle, and the cycle itself (lines 696 to
  822): \<open>points\<close> is what \<^verbatim>\<open>get_enabled_points\<close> returned, \<open>current_time\<close> what
  \<^verbatim>\<open>time.time()\<close> returned at the start of the cycle.
\<close>

record publisher =
  last_poll_of :: "int \<rightharpoonup> real"
  mqtt_connected :: bool
  poll_cycle :: nat

definition next_minute_of :: "real \<Rightarrow> int" where
  "next_minute_of current_time = \<lceil>current_time / 60\<rceil> * 60"

definition start_tick :: "publisher \<Rightarrow> tick" where
  "start_tick s =
     \<lparr>point_last_poll = last_poll_of s, total_reads = 0, successful_reads = 0,
      failed_reads = 0, skipped_reads = 0, individual_publishes = 0, effects = [],
      raised = None\<rparr>"

definition run_tick ::
  "retry_config \<Rightarrow> world \<Rightarrow> publisher \<Rightarrow> point list \<Rightarrow> real \<Rightarrow> pystr \<Rightarrow> tick" where
  "run_tick c w s points current_time timestamp =
     poll_points c w (mqtt_connected s) current_time (next_minute_of current_time) timestamp
       (start_tick s) points"

definition poll_and_publish ::
  "retry_config \<Rightarrow> world \<Rightarrow> publisher \<Rightarrow> point list \<Rightarrow> real \<Rightarrow> pystr \<Rightarrow> publisher" where
  "poll_and_publish c w s points current_time timestamp =
     (if points = [] then s
      else (let t = run_tick c w s points current_time timestamp
            in s\<lparr>last_poll_of := point_last_poll t,
                 poll_cycle := (if raised t = None \<and> 0 < total_reads t
                                then poll_cycle s + 1 else poll_cycle s)\<rparr>))"


definition nextDueAt :: "publisher \<Rightarrow> point \<Rightarrow> real option" where
  "nextDueAt s pt = map_option (\<lambda>last_poll. last_poll + of_int (pollInterval pt))
                      (last_poll_of s (point_id pt))"

definition read_ids :: "tick \<Rightarrow> int list" where
  "read_ids t = concat (map (\<lambda>e. case e of Reading i evs \<Rightarrow> [i] | Published m \<Rightarrow> []) (effects t))"

section \<open>Write commands\<close>

text \<open>
  A write command is the dictionary \<^verbatim>\<open>json.loads\<close> made of the MQTT payload.
  \<^verbatim>\<open>command.get(key)\<close> gives \<^verbatim>\<open>None\<close> for a missing key as for a null; the three
  keys read with a default are optional fields.
\<close>

record write_command =
  jobId :: pyval
  deviceIp :: pyval
  command_deviceId :: pyval
  command_objectType :: pyval
  command_objectInstance :: pyval
  command_value :: pyval
  priority :: "pyval option"
  release :: "pyval option"
  pointName :: "pyval option"

datatype wire_value = Null | RealValue pyfloat | Unsigned int

record write_request =
  destination :: "pyval \<times> int"
  objectIdentifier :: "pyval \<times> pyval"
  propertyIdentifier :: pystr
  propertyValue :: wire_value

definition obj_type_map_write :: "(pystr \<times> pystr) list" where
  "obj_type_map_write = butlast obj_type_map_read"

text \<open>
  \<^verbatim>\<open>obj_type_map.get(object_type, object_type)\<close>: a list or a dict is unhashable and
  raises; any other key that is not in the map comes back as it is.
\<close>

definition obj_type_bacnet_of :: "pyval \<Rightarrow> exn + pyval" where
  "obj_type_bacnet_of object_type =
     (case object_type of
        PStr s \<Rightarrow> Inr (PStr (case map_of obj_type_map_write s of Some b \<Rightarrow> b | None \<Rightarrow> s))
      | POther t r \<Rightarrow> Inl TypeError
      | x \<Rightarrow> Inr x)"

definition multi_state_types :: "pystr list" where
  "multi_state_types =
     [ascii ''multi-state-input'', ascii ''multi-state-output'', ascii ''multi-state-value'']"

definition mk_unsigned :: "bacpypes \<Rightarrow> int \<Rightarrow> exn + wire_value" where
  "mk_unsigned l n = (if Unsigned_ok l n then Inr (Unsigned n) else Inl LibraryError)"

text \<open>
  Lines 544 to 571, the value to write and its way into the request.
  \<^verbatim>\<open>'analog' in object_type\<close> raises on an object type that is no string (an unhashable
  one never comes this far). Where the library makes no value of \<^verbatim>\<open>Null()\<close>, the
  release raises before anything is sent, like every other value the library refuses.
\<close>

definition prepare_value ::
  "builtins \<Rightarrow> bacpypes \<Rightarrow> pyval \<Rightarrow> pyval \<Rightarrow> pyval \<Rightarrow> exn + wire_value" where
  "prepare_value env l object_type v rel =
     (if truthy rel then (if Null_ok l then Inr Null else Inl LibraryError)
      else (case object_type of
              PStr ot \<Rightarrow>
                if str_contains ot (ascii ''analog'') \<or> ot \<in> set multi_state_types then
                  (if str_contains ot (ascii ''multi-state'')
                   then (case py_int env v of Inl e \<Rightarrow> Inl e | Inr n \<Rightarrow> mk_unsigned l n)
                   else map_sum id RealValue (py_float env v))
                else if str_contains ot (ascii ''binary'')
                then mk_unsigned l (if truthy v then 1 else 0)
                else map_sum id RealValue (py_float env v)
            | _ \<Rightarrow> Inl TypeError))"

datatype write_outcome = Acked | WriteTimedOut | WriteRaised

datatype write_error = RequestTimeout | WriteFailed | WriteError exn

text \<open>
  \<^verbatim>\<open>write_bacnet_value\<close>, lines 513 to 601: the request handed to the BACnet
  application, if one was, and the pair the function returns. The priority is a
  parameter of the function and is only logged.
\<close>

definition write_bacnet_value ::
  "builtins \<Rightarrow> bacpypes \<Rightarrow> (write_request \<Rightarrow> write_outcome) \<Rightarrow> pyval \<Rightarrow> int \<Rightarrow> pyval \<Rightarrow> pyval
     \<Rightarrow> pyval \<Rightarrow> pyval \<Rightarrow> pyval \<Rightarrow> write_request option \<times> bool \<times> write_error option" where
  "write_bacnet_value env l device device_ip device_port object_type object_instance v prio rel =
     (case obj_type_bacnet_of object_type of
        Inl e \<Rightarrow> (None, False, Some (WriteError e))
      | Inr obj_type_bacnet \<Rightarrow>
          if Address_ok l device_ip device_port
             \<and> ObjectIdentifier_ok l obj_type_bacnet object_instance
          then (case prepare_value env l object_type v rel of
                  Inl e \<Rightarrow> (None, False, Some (WriteError e))
                | Inr write_value \<Rightarrow>
                    (let request = \<lparr>destination = (device_ip, device_port),
                                    objectIdentifier = (obj_type_bacnet, object_instance),
                                    propertyIdentifier = ascii ''presentValue'',
                                    propertyValue = write_value\<rparr>
                     in case device request of
                          Acked \<Rightarrow> (Some request, True, None)
                        | WriteTimedOut \<Rightarrow> (Some request, False, Some RequestTimeout)
                        | WriteRaised \<Rightarrow> (Some request, False, Some WriteFailed)))
          else (None, False, Some (WriteError LibraryError)))"

text \<open>
  \<^verbatim>\<open>execute_write_command\<close>, lines 249 to 311: the request sent, if any, and the
  result published on \<^verbatim>\<open>bacnet/write/result\<close> (its time stamp left out). The function
  looks at no field before it calls \<^verbatim>\<open>write_bacnet_value\<close>.
\<close>

record write_result =
  result_jobId :: pyval
  result_success :: bool
  result_error :: "write_error option"
  result_deviceId :: pyval
  result_pointName :: pyval
  result_value :: pyval
  result_priority :: pyval
  result_release :: pyval

text \<open>
  \<^verbatim>\<open>command.get('priority', 8)\<close>, \<^verbatim>\<open>command.get('release', False)\<close> and
  \<^verbatim>\<open>command.get('pointName', 'Unknown')\<close>.
\<close>

definition get_priority :: "write_command \<Rightarrow> pyval" where
  "get_priority command = (case priority command of None \<Rightarrow> PInt 8 | Some x \<Rightarrow> x)"

definition get_release :: "write_command \<Rightarrow> pyval" where
  "get_release command = (case release command of None \<Rightarrow> PBool False | Some x \<Rightarrow> x)"

definition get_pointName :: "write_command \<Rightarrow> pyval" where
  "get_pointName command =
     (case pointName command of None \<Rightarrow> PStr (ascii ''Unknown'') | Some x \<Rightarrow> x)"

definition execute_write_command ::
  "builtins \<Rightarrow> bacpypes \<Rightarrow> (write_request \<Rightarrow> write_outcome) \<Rightarrow> write_command
     \<Rightarrow> write_request option \<times> write_result" where
  "execute_write_command env l device command =
     (let prio = get_priority command;
          rel = get_release command;
          point_name = get_pointName command;
          (sent, success, error_msg) =
             write_bacnet_value env l device (deviceIp command) 47808
               (command_objectType command) (command_objectInstance command)
               (command_value command) prio rel
      in (sent,
          \<lparr>result_jobId = jobId command, result_success = success,
           result_error = (if \<not> success then error_msg else None),
           result_deviceId = command_deviceId command, result_pointName = point_name,
           result_value = command_value command, result_priority = prio,
           result_release = rel\<rparr>))"

text \<open>\<^verbatim>\<open>process_write_commands\<close>, lines 313 to 318: the queue is drained in order.\<close>

fun process_write_commands ::
  "builtins \<Rightarrow> bacpypes \<Rightarrow> (write_request \<Rightarrow> write_outcome) \<Rightarrow> write_command list
     \<Rightarrow> (write_request option \<times> write_result) list" where
  "process_write_commands env l device [] = []"
| "process_write_commands env l device (command # queue) =
     execute_write_command env l device command # process_write_commands env l device queue"

text \<open>
  The request of lines 564 to 571 for a command, given the BACnet name of its object
  type and the value prepared.
\<close>

definition request_with :: "write_command \<Rightarrow> pyval \<Rightarrow> wire_value \<Rightarrow> write_request" where
  "request_with command obj_type_bacnet write_value =
     \<lparr>destination = (deviceIp command, 47808),
      objectIdentifier = (obj_type_bacnet, command_objectInstance command),
      propertyIdentifier = ascii ''presentValue'',
      propertyValue = write_value\<rparr>"

text \<open>
  The encoding contract of section 4.1 of the specification, in its words: the family of
  the object type, \<^verbatim>\<open>analog*\<close>, \<^verbatim>\<open>binary*\<close> or \<^verbatim>\<open>multiState*\<close>, decides the wire type, and
  a release is a Null. A family is read as the names that begin so; the multi-state
  types are also spelled with hyphens in this repository. \<open>None\<close> is the
  \<^verbatim>\<open>EncodeError\<close> of the specification.
\<close>

definition starts_with :: "pystr \<Rightarrow> string \<Rightarrow> bool" where
  "starts_with s name = (take (length name) s = ascii name)"

definition spec_wire_value :: "builtins \<Rightarrow> pystr \<Rightarrow> pyval \<Rightarrow> pyval \<Rightarrow> wire_value option" where
  "spec_wire_value env ot v rel =
     (if truthy rel then Some Null
      else if starts_with ot ''analog'' then
        (case py_float env v of Inr f \<Rightarrow> Some (RealValue f) | Inl e \<Rightarrow> None)
      else if starts_with ot ''binary'' then Some (Unsigned (if truthy v then 1 else 0))
      else if starts_with ot ''multiState'' \<or> starts_with ot ''multi-state'' then
        (case py_int env v of Inr n \<Rightarrow> Some (Unsigned n) | Inl e \<Rightarrow> None)
      else None)"

text \<open>
  The three ways the write path treats an object type that is a string, by the tests of
  lines 550 to 561 in their order: the value goes through \<^verbatim>\<open>int\<close> into an Unsigned, it
  is written as the Unsigned 1 or 0 of its truth value, or it goes through \<^verbatim>\<open>float\<close>
  into a Real.
\<close>

definition written_as_int :: "pystr \<Rightarrow> bool" where
  "written_as_int ot =
     (ot \<in> set multi_state_types
      \<or> (str_contains ot (ascii ''analog'') \<and> str_contains ot (ascii ''multi-state'')))"

definition written_as_bit :: "pystr \<Rightarrow> bool" where
  "written_as_bit ot =
     (str_contains ot (ascii ''binary'') \<and> \<not> str_contains ot (ascii ''analog'')
      \<and> ot \<notin> set multi_state_types)"

definition written_as_real :: "pystr \<Rightarrow> bool" where
  "written_as_real ot = (\<not> written_as_int ot \<and> \<not> written_as_bit ot)"

text \<open>
  Whether the value of a command can be built for an object type that is a string:
  \<^verbatim>\<open>int(value)\<close> returns and \<^verbatim>\<open>Unsigned\<close> takes the result, \<^verbatim>\<open>Unsigned\<close> takes 1 or 0,
  or \<^verbatim>\<open>float(value)\<close> returns.
\<close>

definition value_is_built :: "builtins \<Rightarrow> bacpypes \<Rightarrow> pystr \<Rightarrow> pyval \<Rightarrow> bool" where
  "value_is_built env l ot v =
     (if written_as_int ot then (case py_int env v of Inr n \<Rightarrow> Unsigned_ok l n | Inl e \<Rightarrow> False)
      else if written_as_bit ot then Unsigned_ok l (if truthy v then 1 else 0)
      else (case py_float env v of Inr f \<Rightarrow> True | Inl e \<Rightarrow> False))"

text \<open>
  The validation that section 4.7 of the specification describes, in its words: the
  required fields are there, the object type is a recognized one, the instance is not
  negative, and a priority that is given lies in 1..16. The source has no such test;
  the predicate serves to say so.
\<close>

definition spec_valid_command :: "write_command \<Rightarrow> bool" where
  "spec_valid_command command =
     (jobId command \<noteq> PNone \<and> deviceIp command \<noteq> PNone \<and> command_deviceId command \<noteq> PNone
      \<and> (case command_objectType command of
            PStr ot \<Rightarrow> ot \<in> set (map fst obj_type_map_write) | _ \<Rightarrow> False)
      \<and> (case command_objectInstance command of PInt i \<Rightarrow> 0 \<le> i | _ \<Rightarrow> False)
      \<and> (case priority command of
            None \<Rightarrow> True | Some (PInt n) \<Rightarrow> 1 \<le> n \<and> n \<le> 16 | Some _ \<Rightarrow> False))"

section \<open>The sink bridge: \<^verbatim>\<open>on_message\<close>\<close>

text \<open>
  What \<^verbatim>\<open>json.loads\<close> made of a message: nothing usable (invalid JSON, or no object),
  or a dictionary, of which the two keys of the de-duplication are kept with the value;
  the other columns are copied to the row unchanged and left out here. The name and the
  time stamp are strings when present. An event is a message together with whether the
  database takes an insert at that moment.
\<close>

record sink_payload =
  haystackName :: "pystr option"
  timestamp :: "pystr option"
  reading_value :: pyval

datatype mqtt_in = Malformed | Decoded sink_payload

record sink_event =
  message :: mqtt_in
  db_up :: bool

type_synonym dedup_key = "pystr option \<times> pystr option"

datatype row_time = Parsed pystr | UtcNow

record row =
  time_col :: row_time
  row_payload :: sink_payload

text \<open>
  The globals of the bridge: the dictionary \<^verbatim>\<open>seen_messages\<close> as the list of its keys
  in insertion order, the table \<^verbatim>\<open>sensor_readings\<close>, and the counters.
\<close>

record sink =
  seen_messages :: "dedup_key list"
  sensor_readings :: "row list"
  messages_received :: nat
  messages_written :: nat
  errors :: nat

definition sink_start :: sink where
  "sink_start = \<lparr>seen_messages = [], sensor_readings = [], messages_received = 0,
                 messages_written = 0, errors = 0\<rparr>"

text \<open>Line 151: \<^verbatim>\<open>timestamp[:19] if timestamp and len(timestamp) >= 19 else timestamp\<close>.\<close>

definition timestamp_second :: "pystr option \<Rightarrow> pystr option" where
  "timestamp_second ts =
     (case ts of
        None \<Rightarrow> None
      | Some s \<Rightarrow> if s \<noteq> [] \<and> 19 \<le> length s then Some (take 19 s) else Some s)"

definition dedup_key_of :: "sink_payload \<Rightarrow> dedup_key" where
  "dedup_key_of p = (haystackName p, timestamp_second (timestamp p))"

text \<open>
  Lines 162 and 163: \<^verbatim>\<open>seen_messages.pop(next(iter(seen_messages)), None)\<close>, so many
  times. \<^verbatim>\<open>next\<close> on an empty dictionary raises \<^verbatim>\<open>StopIteration\<close>.
\<close>

fun evict :: "nat \<Rightarrow> dedup_key list \<Rightarrow> exn + dedup_key list" where
  "evict 0 seen = Inr seen"
| "evict (Suc n) [] = Inl StopIteration"
| "evict (Suc n) (k # seen) = evict n seen"

text \<open>\<^verbatim>\<open>timestamp.replace('Z', '+00:00')\<close>.\<close>

definition replace_Z :: "pystr \<Rightarrow> pystr" where
  "replace_Z s = concat (map (\<lambda>c. if c = 90 then ascii ''+00:00'' else [c]) s)"

text \<open>
  Lines 141 to 146. Which strings \<^verbatim>\<open>datetime.fromisoformat\<close> accepts is a parameter;
  \<open>None\<close> stands for its \<^verbatim>\<open>ValueError\<close>.
\<close>

definition parse_time :: "(pystr \<Rightarrow> bool) \<Rightarrow> pystr option \<Rightarrow> row_time option" where
  "parse_time isofmt ts =
     (case ts of
        None \<Rightarrow> Some UtcNow
      | Some s \<Rightarrow>
          if s = [] then Some UtcNow
          else if isofmt (replace_Z s) then Some (Parsed (replace_Z s)) else None)"

text \<open>
  \<^verbatim>\<open>insert_sensor_reading\<close>, lines 201 to 233: an insert that fails is logged, the
  connection is reopened, and nothing is raised.
\<close>

definition insert_sensor_reading :: "bool \<Rightarrow> row \<Rightarrow> row list \<Rightarrow> row list" where
  "insert_sensor_reading up r table = (if up then table @ [r] else table)"

text \<open>\<^verbatim>\<open>on_message\<close>, lines 130 to 199.\<close>

definition on_message :: "(pystr \<Rightarrow> bool) \<Rightarrow> sink \<Rightarrow> sink_event \<Rightarrow> sink" where
  "on_message isofmt s ev =
     (let s1 = s\<lparr>messages_received := messages_received s + 1\<rparr>
      in case message ev of
           Malformed \<Rightarrow> s1\<lparr>errors := errors s1 + 1\<rparr>
         | Decoded p \<Rightarrow>
             (case parse_time isofmt (timestamp p) of
                None \<Rightarrow> s1\<lparr>errors := errors s1 + 1\<rparr>
              | Some dt \<Rightarrow>
                  (let dedup_key = dedup_key_of p
                   in if dedup_key \<in> set (seen_messages s1) then s1
                      else (let seen = seen_messages s1 @ [dedup_key]
                            in case (if 1000 < length seen then evict 100 seen else Inr seen) of
                                 Inl e \<Rightarrow> s1\<lparr>seen_messages := [], errors := errors s1 + 1\<rparr>
                               | Inr seen' \<Rightarrow>
                                   s1\<lparr>seen_messages := seen',
                                      sensor_readings :=
                                        insert_sensor_reading (db_up ev)
                                          \<lparr>time_col = dt, row_payload = p\<rparr> (sensor_readings s1),
                                      messages_written := messages_written s1 + 1\<rparr>))))"

fun run_sink :: "(pystr \<Rightarrow> bool) \<Rightarrow> sink \<Rightarrow> sink_event list \<Rightarrow> sink" where
  "run_sink isofmt s [] = s"
| "run_sink isofmt s (ev # evs) = run_sink isofmt (on_message isofmt s ev) evs"

text \<open>The keys of the messages of a stream, and the keys of the rows stored.\<close>

fun keys_of :: "sink_event list \<Rightarrow> dedup_key list" where
  "keys_of [] = []"
| "keys_of (ev # evs) =
     (case message ev of
        Malformed \<Rightarrow> keys_of evs
      | Decoded p \<Rightarrow> dedup_key_of p # keys_of evs)"

definition row_keys :: "sink \<Rightarrow> dedup_key list" where
  "row_keys s = map (\<lambda>r. dedup_key_of (row_payload r)) (sensor_readings s)"

section \<open>The decoding contract\<close>

text \<open>
  The table of section 4.1 of the specification, in its words: a big-endian unsigned
  number is the sum of its bytes weighted by powers of 256, the signed one is its two's
  complement, and the decoder takes the first tag that carries data.
\<close>

primrec big_endian_unsigned :: "byte list \<Rightarrow> int" where
  "big_endian_unsigned [] = 0"
| "big_endian_unsigned (b # bs) = uint b * 256 ^ length bs + big_endian_unsigned bs"

definition big_endian_signed :: "byte list \<Rightarrow> int" where
  "big_endian_signed bs =
     (if big_endian_unsigned bs < 2 ^ (8 * length bs - 1) then big_endian_unsigned bs
      else big_endian_unsigned bs - 2 ^ (8 * length bs))"

definition tag_contract :: "tag \<Rightarrow> pyval option" where
  "tag_contract t =
     (let n = tag_number t; d = tag_data t
      in if d = [] then None
         else if n = 1 then Some (PBool (hd d \<noteq> 0))
         else if n = 2 \<or> n = 9 then Some (PInt (big_endian_unsigned d))
         else if n = 3 then Some (PInt (big_endian_signed d))
         else if n = 4 \<and> length d = 4 then Some (PFloat (ieee_decode 8 23 (big_endian_unsigned d)))
         else if n = 5 \<and> length d = 8 then Some (PFloat (ieee_decode 11 52 (big_endian_unsigned d)))
         else if n = 7 then map_option PStr (utf8_points (map unat d))
         else None)"

definition decode_contract :: "builtins \<Rightarrow> bacnet_value \<Rightarrow> pyval option" where
  "decode_contract env v =
     (if looks_like_object (as_str v) then
        (case tagList v of
           None \<Rightarrow> None
         | Some tags \<Rightarrow>
             (case find (\<lambda>t. tag_data t \<noteq> []) tags of
                None \<Rightarrow> None
              | Some t \<Rightarrow> tag_contract t))
      else (let s = strip (as_str v)
            in case (if 46 \<in> set s then map_option PFloat (float_of_str env s)
                     else map_option PInt (int_of_str env s)) of
                 Some x \<Rightarrow> Some x
               | None \<Rightarrow> if length s < 100 then Some (PStr s) else None))"

section \<open>Sample environments\<close>

text \<open>
  Concrete environments for the examples: a library that accepts every target, the
  unsigned numbers from 0 and the call \<^verbatim>\<open>Null()\<close>, the same library making no value of
  \<^verbatim>\<open>Null()\<close>, and a parser that reads strings of decimal digits only.
\<close>

definition accepts_all :: bacpypes where
  "accepts_all = \<lparr>Address_ok = (\<lambda>a p. True), ObjectIdentifier_ok = (\<lambda>ty i. True),
                  Unsigned_ok = (\<lambda>n. 0 \<le> n), Null_ok = True\<rparr>"

definition without_null :: bacpypes where
  "without_null = accepts_all\<lparr>Null_ok := False\<rparr>"

definition digits_value :: "pystr \<Rightarrow> int option" where
  "digits_value s =
     (if s \<noteq> [] \<and> list_all (\<lambda>c. 48 \<le> c \<and> c < 58) s
      then Some (foldl (\<lambda>acc c. acc * 10 + (int c - 48)) 0 s) else None)"

definition digits_only :: builtins where
  "digits_only = \<lparr>int_of_str = digits_value, float_of_str = (\<lambda>s. None)\<rparr>"

text \<open>
  Payloads as the library hands them over: scenario S1 of the specification (a Real
  tag with the four bytes of 123.0), the same tag one byte short, an object whose
  \<^verbatim>\<open>str()\<close> is the letter x followed by a hundred blanks, and an object whose
  \<^verbatim>\<open>__str__\<close> raises.
\<close>

definition s1_payload :: bacnet_value where
  "s1_payload =
     \<lparr>host = None, value_attr = None, str_raises = None,
      as_str = ascii ''<bacpypes3.constructeddata.Any object at 0x7f3a5c0d>'',
      tagList = Some [\<lparr>tag_number = 4, tag_data = [0x42, 0xF6, 0x00, 0x00]\<rparr>]\<rparr>"


definition padded_text :: bacnet_value where
  "padded_text =
     \<lparr>host = None, value_attr = None, str_raises = None, as_str = 120 # replicate 100 32,
      tagList = None\<rparr>"


text \<open>
  A point as scenario S1 and S5 have it (analog input 7 of the device at 192.168.1.50,
  polled every 60 s), a publisher that has not seen it yet and one that polled it last at
  10:00:00 UTC on 2024-03-01, a broker client that takes every message, and a world in
  which the device answers every attempt with the payload of S1.
\<close>

definition sample_point :: point where
  "sample_point =
     \<lparr>point_id = 7, pollInterval = 60, mqttTopic = Some (ascii ''site/ahu_1/sat/presentValue''),
      qos = 1, units = Some (ascii ''degC''), dis = Some (ascii ''Supply air temperature''),
      haystackPointName = Some (ascii ''site.ahu.1.sensor.temp.air.supply''),
      ipAddress = ascii ''192.168.1.50'', port = 47808, deviceId = 3056496,
      objectType = ascii ''analog-input'', objectInstance = 7, siteId = Some (ascii ''site''),
      equipmentType = Some (ascii ''AHU''), equipmentId = Some (ascii ''1'')\<rparr>"

definition accepting_broker :: "mqtt_message \<Rightarrow> bool" where
  "accepting_broker m = True"

definition answering :: "point \<Rightarrow> nat \<Rightarrow> nat \<Rightarrow> response" where
  "answering pt attempt timeout = PropertyValue s1_payload"

definition steady_world :: world where
  "steady_world = \<lparr>py_of = digits_only, lib_of = accepts_all, net_of = answering,
                    broker_of = accepting_broker\<rparr>"


definition polled_publisher :: publisher where
  "polled_publisher = \<lparr>last_poll_of = [7 \<mapsto> 1709287200], mqtt_connected = True,
                        poll_cycle = 1\<rparr>"

definition stamp :: pystr where
  "stamp = ascii ''2024-03-01T18:01:03+08:00''"

text \<open>
  A device that acknowledges every write, the command of scenario S3, the same target
  written with a value at priority 99, and writes to a binary output, to a multi-state
  value, and to a multi-state output named as BACnet names it.
\<close>

definition always_acks :: "write_request \<Rightarrow> write_outcome" where
  "always_acks request = Acked"

definition s3_command :: write_command where
  "s3_command =
     \<lparr>jobId = PStr (ascii ''j1''), deviceIp = PStr (ascii ''192.168.1.50''),
      command_deviceId = PInt 3056496, command_objectType = PStr (ascii ''analog-output''),
      command_objectInstance = PInt 2, command_value = PNone, priority = Some (PInt 8),
      release = Some (PBool True), pointName = None\<rparr>"

definition priority_99_command :: write_command where
  "priority_99_command =
     s3_command\<lparr>command_value := PFloat (Finite 21), priority := Some (PInt 99),
                release := Some (PBool False)\<rparr>"

definition binary_command :: write_command where
  "binary_command =
     s3_command\<lparr>command_objectType := PStr (ascii ''binary-output''),
                command_value := PStr (ascii ''off''), release := None\<rparr>"

definition multi_state_command :: write_command where
  "multi_state_command =
     s3_command\<lparr>command_objectType := PStr (ascii ''multi-state-value''),
                command_value := PInt 3, release := None\<rparr>"

definition camel_case_command :: write_command where
  "camel_case_command =
     s3_command\<lparr>command_objectType := PStr (ascii ''multiStateOutput''),
                command_value := PInt 3, release := None\<rparr>"

text \<open>
  The two messages of scenario S4, and a family of readings without a time stamp whose
  names all differ: the name of \<open>probe up n\<close> is the letter x written \<open>n + 1\<close> times.
\<close>

definition s4_message :: "string \<Rightarrow> sink_event" where
  "s4_message ts =
     \<lparr>message = Decoded \<lparr>haystackName = Some (ascii ''site.ahu.1.sensor.temp.air.supply''),
                          timestamp = Some (ascii ts), reading_value = PFloat (Finite 123)\<rparr>,
      db_up = True\<rparr>"

definition probe_payload :: "nat \<Rightarrow> sink_payload" where
  "probe_payload n =
     \<lparr>haystackName = Some (replicate (Suc n) 120), timestamp = None, reading_value = PInt (int n)\<rparr>"

definition probe :: "bool \<Rightarrow> nat \<Rightarrow> sink_event" where
  "probe up n = \<lparr>message = Decoded (probe_payload n), db_up = up\<rparr>"

definition probe_key :: "nat \<Rightarrow> dedup_key" where
  "probe_key n = dedup_key_of (probe_payload n)"

definition any_format :: "pystr \<Rightarrow> bool" where
  "any_format s = True"

section \<open>The key of the specification\<close>

text \<open>
  The specification keys a reading by its name and by the instant of its time stamp cut
  to the second, \<^verbatim>\<open>floor(timestamp, 1s)\<close>. The instant that an ISO 8601 time stamp denotes
  is counted here in seconds since 1970-01-01T00:00:00Z: a date, the letter T, a time of
  day, a fraction of a second that is dropped, and the offset from UTC, written
  \<^verbatim>\<open>Z\<close> or as hours and minutes. \<open>days_from_civil\<close> counts the days of the Gregorian
  calendar.
\<close>

definition days_from_civil :: "int \<Rightarrow> int \<Rightarrow> int \<Rightarrow> int" where
  "days_from_civil y m d =
     (let y' = (if m \<le> 2 then y - 1 else y);
          era = y' div 400;
          yoe = y' - era * 400;
          doy = (153 * (if 2 < m then m - 3 else m + 9) + 2) div 5 + d - 1;
          doe = yoe * 365 + yoe div 4 - yoe div 100 + doy
      in era * 146097 + doe - 719468)"

definition after_fraction :: "pystr \<Rightarrow> pystr" where
  "after_fraction r =
     (case r of
        [] \<Rightarrow> []
      | c # cs \<Rightarrow> if c = 46 then dropWhile (\<lambda>d. 48 \<le> d \<and> d < 58) cs else r)"

definition utc_offset :: "pystr \<Rightarrow> int option" where
  "utc_offset z =
     (if z = ascii ''Z'' then Some 0
      else if length z = 6 \<and> z ! 0 \<in> {43, 45} \<and> z ! 3 = 58 then
        (case those [digits_value (take 2 (drop 1 z)), digits_value (drop 4 z)] of
           Some hm \<Rightarrow> Some ((if z ! 0 = 45 then - 1 else 1) * (hm ! 0 * 3600 + hm ! 1 * 60))
         | None \<Rightarrow> None)
      else None)"

definition instant_second :: "pystr \<Rightarrow> int option" where
  "instant_second s =
     (if 19 \<le> length s \<and> s ! 4 = 45 \<and> s ! 7 = 45 \<and> s ! 10 = 84 \<and> s ! 13 = 58 \<and> s ! 16 = 58
      then
        (case those [digits_value (take 4 s), digits_value (take 2 (drop 5 s)),
                     digits_value (take 2 (drop 8 s)), digits_value (take 2 (drop 11 s)),
                     digits_value (take 2 (drop 14 s)), digits_value (take 2 (drop 17 s)),
                     utc_offset (after_fraction (drop 19 s))] of
           Some x \<Rightarrow>
             Some (days_from_civil (x ! 0) (x ! 1) (x ! 2) * 86400
                   + x ! 3 * 3600 + x ! 4 * 60 + x ! 5 - x ! 6)
         | None \<Rightarrow> None)
      else None)"

definition spec_key_of :: "sink_payload \<Rightarrow> pystr option \<times> int option" where
  "spec_key_of p = (haystackName p, Option.bind (timestamp p) instant_second)"

text \<open>
  What holds of the bridge while nothing has been evicted: the keys seen are distinct,
  and the rows stored have distinct keys, all of them seen.
\<close>

definition window_inv :: "sink \<Rightarrow> bool" where
  "window_inv s = (distinct (seen_messages s) \<and> distinct (row_keys s)
                   \<and> set (row_keys s) \<subseteq> set (seen_messages s))"

section \<open>The decoder meets its contract\<close>

lemma foldl_bytes:
  "foldl (\<lambda>acc b. acc * 256 + uint b) a bs = a * 256 ^ length bs + big_endian_unsigned bs"
  for bs :: "byte list"
  by (induction bs arbitrary: a) (simp_all add: algebra_simps)

lemma from_bytes_big_eq: "from_bytes_big bs = big_endian_unsigned bs"
  by (simp add: from_bytes_big_def foldl_bytes)

lemma big_endian_bounds: "0 \<le> big_endian_unsigned bs \<and> big_endian_unsigned bs < 256 ^ length bs"
proof (induction bs)
  case Nil
  then show ?case by simp
next
  case (Cons b bs)
  have "uint b \<le> 255" using uint_lt2p[of b] by simp
  then have "uint b * 256 ^ length bs \<le> 255 * 256 ^ length bs"
    by (simp add: mult_right_mono)
  moreover have "0 \<le> uint b * 256 ^ length bs" by simp
  moreover have "big_endian_unsigned (b # bs) = uint b * 256 ^ length bs + big_endian_unsigned bs"
    by simp
  moreover have "(256::int) ^ length (b # bs) = 255 * 256 ^ length bs + 256 ^ length bs"
    by simp
  ultimately show ?case using Cons by linarith
qed

lemma signed_take_bit_range:
  fixes n :: int
  assumes "0 \<le> n" "n < 2 ^ Suc k"
  shows "signed_take_bit k n = (if n < 2 ^ k then n else n - 2 ^ Suc k)"
proof (cases "n < 2 ^ k")
  case True
  have "(0::int) < 2 ^ k" by simp
  then have "- (2 ^ k) \<le> n" using assms(1) by linarith
  then show ?thesis using True by (simp add: signed_take_bit_int_eq_self)
next
  case False
  let ?m = "(2::int) ^ Suc k"
  have pos: "0 < ?m" by simp
  have p: "(0::int) < 2 ^ k" by simp
  have ge: "?m \<le> n + 2 ^ k" using False unfolding power_Suc by linarith
  have lt: "n + 2 ^ k - ?m < ?m" using assms(2) p unfolding power_Suc by linarith
  have "(n + 2 ^ k) mod ?m = (n + 2 ^ k - ?m) mod ?m"
    using mod_pos_geq[OF pos ge] .
  also have "\<dots> = n + 2 ^ k - ?m"
    using ge lt by (intro mod_pos_pos_trivial) simp_all
  finally have "take_bit (Suc k) (n + 2 ^ k) = n + 2 ^ k - ?m"
    by (simp only: take_bit_eq_mod)
  then show ?thesis using False
    by (simp only: signed_take_bit_eq_take_bit_shift if_False)
qed

lemma sint_byte: "sint (a :: byte) = big_endian_signed [a]"
proof -
  have "0 \<le> uint a" "uint a < 2 ^ Suc 7" using uint_lt2p[of a] by simp_all
  from signed_take_bit_range[OF this] show ?thesis
    by (simp add: sint_uint big_endian_signed_def)
qed

lemma unpack_h_eq: "unpack_h [a, b] = Inr (big_endian_signed [a, b])"
proof -
  let ?n = "uint a * 256 + uint b"
  have b: "0 \<le> ?n" "?n < 2 ^ Suc 15"
    using big_endian_bounds[of "[a, b]"] by simp_all
  have "sint (word_of_int ?n :: 16 word) = signed_take_bit 15 ?n"
    by (simp only: sint_sbintrunc') simp
  with signed_take_bit_range[OF b] show ?thesis
    by (simp add: big_endian_signed_def)
qed

lemma unpack_i_eq: "unpack_i [a, b, c, d] = Inr (big_endian_signed [a, b, c, d])"
proof -
  let ?n = "((uint a * 256 + uint b) * 256 + uint c) * 256 + uint d"
  have e: "?n = big_endian_unsigned [a, b, c, d]" by simp
  have b: "0 \<le> ?n" "?n < 2 ^ Suc 31"
    unfolding e using big_endian_bounds[of "[a, b, c, d]"] by simp_all
  have "sint (word_of_int ?n :: 32 word) = signed_take_bit 31 ?n"
    by (simp only: sint_sbintrunc') simp
  with signed_take_bit_range[OF b] show ?thesis
    unfolding unpack_i.simps e by (simp add: big_endian_signed_def)
qed

lemma from_bytes_big_signed_eq: "from_bytes_big_signed bs = big_endian_signed bs"
  by (cases "bs = []") (auto simp: from_bytes_big_signed_def big_endian_signed_def from_bytes_big_eq Let_def)

lemma decode_tag_contract:
  "(case decode_tag t of Inl e \<Rightarrow> None | Inr r \<Rightarrow> r) = tag_contract t"
proof (cases "tag_data t")
  case Nil
  then show ?thesis by (simp add: decode_tag_def tag_contract_def)
next
  case (Cons b bs)
  note d = Cons
  have len1: "length (tag_data t) = 1 \<Longrightarrow> tag_data t = [b]" using d by simp
  have len2: "length (tag_data t) = 2 \<Longrightarrow> \<exists>c. tag_data t = [b, c]"
    using d by (cases bs) auto
  have len4: "length (tag_data t) = 4 \<Longrightarrow> \<exists>c e f. tag_data t = [b, c, e, f]"
    using d by (cases bs; cases "tl bs"; cases "tl (tl bs)") auto
  have hd0: "(uint (hd (tag_data t)) \<noteq> 0) = (hd (tag_data t) \<noteq> 0)"
    by (simp add: uint_0_iff)
  have u: "decode_tag t = Inr (Some (PInt (big_endian_unsigned (tag_data t))))"
    if "tag_number t = 2" 
  proof -
    consider "length (tag_data t) = 1" | "length (tag_data t) = 2" | "length (tag_data t) = 4"
      | "length (tag_data t) \<noteq> 1" "length (tag_data t) \<noteq> 2" "length (tag_data t) \<noteq> 4"
      by blast
    then show ?thesis
    proof cases
      case 1
      with len1 that show ?thesis by (simp add: decode_tag_def returns_def)
    next
      case 2
      with len2 obtain c where "tag_data t = [b, c]" by blast
      with that show ?thesis by (simp add: decode_tag_def returns_def)
    next
      case 3
      with len4 obtain c e f where "tag_data t = [b, c, e, f]" by blast
      with that show ?thesis by (simp add: decode_tag_def returns_def)
    next
      case 4
      with that d show ?thesis by (simp add: decode_tag_def returns_def from_bytes_big_eq)
    qed
  qed
  have sg: "decode_tag t = Inr (Some (PInt (big_endian_signed (tag_data t))))"
    if "tag_number t = 3"
  proof -
    consider "length (tag_data t) = 1" | "length (tag_data t) = 2" | "length (tag_data t) = 4"
      | "length (tag_data t) \<noteq> 1" "length (tag_data t) \<noteq> 2" "length (tag_data t) \<noteq> 4"
      by blast
    then show ?thesis
    proof cases
      case 1
      with len1 that show ?thesis by (simp add: decode_tag_def returns_def sint_byte)
    next
      case 2
      with len2 obtain c where "tag_data t = [b, c]" by blast
      with that show ?thesis by (simp add: decode_tag_def returns_def unpack_h_eq del: unpack_h.simps)
    next
      case 3
      with len4 obtain c e f where "tag_data t = [b, c, e, f]" by blast
      with that show ?thesis by (simp add: decode_tag_def returns_def unpack_i_eq del: unpack_i.simps)
    next
      case 4
      with that d show ?thesis
        by (simp add: decode_tag_def returns_def from_bytes_big_signed_eq)
    qed
  qed
  consider "tag_number t = 1" | "tag_number t = 2" | "tag_number t = 3" | "tag_number t = 4"
    | "tag_number t = 5" | "tag_number t = 7" | "tag_number t = 9"
    | "tag_number t \<notin> {1, 2, 3, 4, 5, 7, 9}" by blast
  then show ?thesis
  proof cases
    case 1
    then show ?thesis using d hd0 by (simp add: decode_tag_def tag_contract_def returns_def)
  next
    case 2
    then show ?thesis using d u by (simp add: tag_contract_def)
  next
    case 3
    then show ?thesis using d sg by (simp add: tag_contract_def)
  next
    case 4
    then show ?thesis using d
      by (simp add: decode_tag_def tag_contract_def unpack_f_def from_bytes_big_eq)
  next
    case 5
    then show ?thesis using d
      by (simp add: decode_tag_def tag_contract_def unpack_d_def from_bytes_big_eq)
  next
    case 6
    then show ?thesis using d
      by (simp add: decode_tag_def tag_contract_def decode_utf8_def split: option.splits)
  next
    case 7
    then show ?thesis using d
      by (simp add: decode_tag_def tag_contract_def returns_def from_bytes_big_eq)
  next
    case 8
    then show ?thesis using d by (simp add: decode_tag_def tag_contract_def)
  qed
qed

lemma find_None_data: "find (\<lambda>t. tag_data t \<noteq> []) tags = None \<Longrightarrow> t \<in> set tags \<Longrightarrow> tag_data t = []"
  by (auto simp: find_None_iff)

lemma from_tags_Cons:
  "tagList v = Some (t0 # ts) \<Longrightarrow>
   from_tags v = decode_tag (case find (\<lambda>t. tag_data t \<noteq> []) (t0 # ts) of
                               Some t \<Rightarrow> t | None \<Rightarrow> t0)"
  by (simp only: from_tags_def option.case list.case)

lemma decode_tag_empty: "tag_data t = [] \<Longrightarrow> decode_tag t = Inr None"
  unfolding decode_tag_def Let_def by (simp only: if_True simp_thms)

lemma from_tags_contract:
  "(case from_tags v of Inl e \<Rightarrow> None | Inr r \<Rightarrow> r) =
     (case tagList v of
        None \<Rightarrow> None
      | Some tags \<Rightarrow>
          (case find (\<lambda>t. tag_data t \<noteq> []) tags of None \<Rightarrow> None | Some t \<Rightarrow> tag_contract t))"
proof (cases "tagList v")
  case None
  then show ?thesis by (simp add: from_tags_def)
next
  case some: (Some tags)
  show ?thesis
  proof (cases tags)
    case Nil
    then show ?thesis using some by (simp add: from_tags_def)
  next
    case (Cons t0 ts)
    have tl: "tagList v = Some (t0 # ts)" using some Cons by simp
    show ?thesis
    proof (cases "find (\<lambda>t. tag_data t \<noteq> []) (t0 # ts)")
      case None
      have "tag_data t0 = []"
        by (rule find_None_data[OF None]) simp
      then have "decode_tag t0 = Inr None" by (rule decode_tag_empty)
      then show ?thesis
        by (simp only: from_tags_Cons[OF tl] tl None option.case sum.case)
    next
      case (Some t)
      show ?thesis
        by (simp only: from_tags_Cons[OF tl] tl Some option.case decode_tag_contract)
    qed
  qed
qed

lemma extract_value_decodes:
  assumes "passes_through v = None" and "value_of_attr v = None" and "str_raises v = None"
  shows "extract_value env v = Inr (decode_contract env v)"
proof (cases "looks_like_object (as_str v)")
  case True
  then have b: "extract_value_body env v = from_tags v"
    using assms by (simp add: extract_value_body_def)
  have c: "decode_contract env v = (case from_tags v of Inl e \<Rightarrow> None | Inr r \<Rightarrow> r)"
    using True from_tags_contract[of v] by (simp add: decode_contract_def)
  show ?thesis unfolding extract_value_def b c using assms(3)
    by (cases "from_tags v") simp_all
next
  case False
  then show ?thesis using assms
    by (simp add: extract_value_def extract_value_body_def decode_contract_def parse_clean_def Let_def)
qed

text \<open>
  Claim C6. For a payload that is not passed through as a host primitive, neither itself nor
  through its attribute \<^verbatim>\<open>value\<close>, and that has a string form (its \<^verbatim>\<open>str()\<close> returns), the
  decoder returns what the decoding contract says.
  When the string form is an object representation, the first tag with data decides: 1
  a boolean, 2 and 9 a big-endian unsigned number of any length, 3 its two's complement,
  4 and 5 an IEEE 754 single or double of exactly 4 or 8 bytes, 7 a UTF-8 string, and
  everything else, no data included, \<^verbatim>\<open>None\<close>. Otherwise the string form is stripped of
  white space and parsed as a number, and the stripped string comes back when its length
  is below 100.
\<close>

theorem extract_value_meets_contract:
  assumes "passes_through v = None" and "value_of_attr v = None" and "str_raises v = None"
  shows "extract_value env v = Inr (decode_contract env v)"
  using assms by (rule extract_value_decodes)









lemma opaque_repr:
  "looks_like_object (ascii ''<bacpypes3.constructeddata.Any object at 0x7f3a5c0d>'')"
  by (simp add: looks_like_object_def ascii_def)



text \<open>Scenario S1: the four bytes 42 F6 00 00 under tag 4 decode to 123.0.\<close>

theorem extract_value_meets_contract_witness:
  "passes_through s1_payload = None \<and> value_of_attr s1_payload = None
   \<and> str_raises s1_payload = None
   \<and> extract_value digits_only s1_payload = Inr (decode_contract digits_only s1_payload)
   \<and> decode_contract digits_only s1_payload = Some (PFloat (Finite 123))"
proof -
  have p: "passes_through s1_payload = None" by (simp add: passes_through_def s1_payload_def)
  have a: "value_of_attr s1_payload = None" by (simp add: value_of_attr_def s1_payload_def)
  have r: "str_raises s1_payload = None" by (simp add: s1_payload_def)
  have d: "decode_contract digits_only s1_payload = Some (PFloat (Finite 123))"
    by (simp add: decode_contract_def s1_payload_def opaque_repr tag_contract_def
        ieee_decode_def Let_def)
  from extract_value_meets_contract[OF p a r, of digits_only] p a r d show ?thesis by simp
qed

lemma str_contains_hd: "str_contains s (c # r) \<Longrightarrow> c \<in> set s"
  by (induction s) auto

lemma strip_padded: "strip (120 # replicate 100 32) = [120]"
proof -
  have sp: "is_space 32" "\<not> is_space 120" by (simp_all add: is_space_def)
  have "dropWhile is_space (120 # replicate 100 32) = 120 # replicate 100 32"
    using sp by simp
  moreover have "rev (120 # replicate 100 32) = replicate 100 32 @ [120::nat]" by simp
  moreover have "dropWhile is_space (replicate 100 32 @ [120]) = [120]"
    using sp by (subst dropWhile_append2) auto
  ultimately show ?thesis by (simp only: strip_def rev.simps append_Nil)
qed

text \<open>
  A string form of 101 characters, the letter x and a hundred blanks, is no object
  representation and no number; the decoder returns the stripped string.
\<close>

theorem long_padded_string_is_returned:
  "\<not> looks_like_object (as_str padded_text) \<and> length (as_str padded_text) = 101
   \<and> extract_value digits_only padded_text = Inr (Some (PStr [120]))"
proof -
  have n: "\<not> looks_like_object (120 # replicate 100 32)"
  proof
    assume "looks_like_object (120 # replicate 100 32)"
    then have "str_contains (120 # replicate 100 32) (ascii ''bacpypes3'')"
      by (simp only: looks_like_object_def)
    then have "98 \<in> set (120 # replicate 100 (32::nat))"
      using str_contains_hd[of "120 # replicate 100 32" 98 "ascii ''acpypes3''"]
      by (simp add: ascii_def)
    then show False by simp
  qed
  have "parse_clean digits_only (120 # replicate 100 32) = Some (PStr [120])"
    unfolding parse_clean_def strip_padded
    by (simp add: digits_only_def digits_value_def)
  then have "extract_value digits_only padded_text = Inr (Some (PStr [120]))"
    using n by (simp add: extract_value_def extract_value_body_def padded_text_def
        passes_through_def value_of_attr_def)
  then show ?thesis using n by (simp add: padded_text_def)
qed

section \<open>Retry policy\<close>

lemma timeout_for_default:
  "timeout_for default_config 0 = 6000 \<and> timeout_for default_config 1 = 6000
   \<and> timeout_for default_config 2 = 12000 \<and> timeout_for default_config 3 = 24000"
  by (simp add: timeout_for_def default_config_def)

lemma requests_pause: "requests (pause c a @ evs) = requests evs"
  by (simp add: pause_def)

lemma retry_loop_requests:
  "\<exists>k \<le> length as. requests (fst (retry_loop c env nw as)) = take k (map (\<lambda>a. (a, timeout_for c a)) as)"
proof (induction as)
  case Nil
  then show ?case by simp
next
  case (Cons a as)
  then obtain k where k: "k \<le> length as"
    "requests (fst (retry_loop c env nw as)) = take k (map (\<lambda>a. (a, timeout_for c a)) as)"
    by blast
  show ?case
  proof (cases "nw a (timeout_for c a)")
    case (PropertyValue v)
    show ?thesis
    proof (cases "extract_value env v")
      case (Inr decoded)
      then have "requests (fst (retry_loop c env nw (a # as))) = take 1 (map (\<lambda>a. (a, timeout_for c a)) (a # as))"
        using PropertyValue by (simp add: Let_def)
      then show ?thesis by (intro exI[of _ 1]) simp
    next
      case (Inl e)
      then have "requests (fst (retry_loop c env nw (a # as))) = take (Suc k) (map (\<lambda>a. (a, timeout_for c a)) (a # as))"
        using PropertyValue k(2) by (simp add: Let_def requests_pause case_prod_beta)
      then show ?thesis using k(1) by (intro exI[of _ "Suc k"]) simp
    qed
  next
    case NoPropertyValue
    then have "requests (fst (retry_loop c env nw (a # as))) = take (Suc k) (map (\<lambda>a. (a, timeout_for c a)) (a # as))"
      using k(2) by (simp add: Let_def case_prod_beta)
    then show ?thesis using k(1) by (intro exI[of _ "Suc k"]) simp
  next
    case TimedOut
    then have "requests (fst (retry_loop c env nw (a # as))) = take (Suc k) (map (\<lambda>a. (a, timeout_for c a)) (a # as))"
      using k(2) by (simp add: Let_def requests_pause case_prod_beta)
    then show ?thesis using k(1) by (intro exI[of _ "Suc k"]) simp
  next
    case Raised
    then have "requests (fst (retry_loop c env nw (a # as))) = take (Suc k) (map (\<lambda>a. (a, timeout_for c a)) (a # as))"
      using k(2) by (simp add: Let_def requests_pause case_prod_beta)
    then show ?thesis using k(1) by (intro exI[of _ "Suc k"]) simp
  qed
qed

lemma retry_loop_all_fail:
  "(\<And>a t v. nw a t \<noteq> PropertyValue v) \<Longrightarrow> snd (retry_loop c env nw as) = None"
proof (induction as)
  case Nil
  then show ?case by simp
next
  case (Cons a as)
  then show ?case
    by (cases "nw a (timeout_for c a)") (auto simp: Let_def case_prod_beta)
qed

lemma read_with_retry_attempts:
  "length (requests (fst (read_with_retry c env l nw ip p ot oi))) \<le> max_retries c + 1"
proof -
  obtain k where "k \<le> length [0 ..< max_retries c + 1]"
    "requests (fst (retry_loop c env nw [0 ..< max_retries c + 1]))
       = take k (map (\<lambda>a. (a, timeout_for c a)) [0 ..< max_retries c + 1])"
    using retry_loop_requests[of "[0 ..< max_retries c + 1]" c env nw] by blast
  then have "length (requests (fst (retry_loop c env nw [0 ..< max_retries c + 1]))) \<le> max_retries c + 1"
    by simp
  then show ?thesis
    by (simp add: read_with_retry_def Let_def case_prod_beta)
qed

lemma read_with_retry_timeouts:
  "(a, t) \<in> set (requests (fst (read_with_retry c env l nw ip p ot oi))) \<Longrightarrow>
   a \<le> max_retries c \<and> t = timeout_for c a"
proof -
  assume a: "(a, t) \<in> set (requests (fst (read_with_retry c env l nw ip p ot oi)))"
  obtain k where k: "requests (fst (retry_loop c env nw [0 ..< max_retries c + 1]))
       = take k (map (\<lambda>a. (a, timeout_for c a)) [0 ..< max_retries c + 1])"
    using retry_loop_requests[of "[0 ..< max_retries c + 1]" c env nw] by blast
  have "(a, t) \<in> set (requests (fst (retry_loop c env nw [0 ..< max_retries c + 1])))"
    using a by (auto simp: read_with_retry_def Let_def case_prod_beta split: if_splits)
  then have "(a, t) \<in> set (map (\<lambda>a. (a, timeout_for c a)) [0 ..< max_retries c + 1])"
    unfolding k by (rule in_set_takeD)
  then show ?thesis by auto
qed

lemma read_with_retry_all_fail:
  "(\<And>a t v. nw a t \<noteq> PropertyValue v) \<Longrightarrow>
   snd (read_with_retry c env l nw ip p ot oi) = Inr None
   \<or> snd (read_with_retry c env l nw ip p ot oi) = Inl LibraryError"
  using retry_loop_all_fail[of nw c env "[0 ..< max_retries c + 1]"]
  by (auto simp: read_with_retry_def Let_def case_prod_beta)

lemma read_with_retry_unreachable:
  "read_with_retry default_config env accepts_all (\<lambda>attempt timeout. TimedOut)
       ip 47808 (ascii ''analog-input'') 7 =
     ([ReadRequest 0 6000, Sleep 500, ReadRequest 1 6000, Sleep 500, ReadRequest 2 12000,
       Sleep 500, ReadRequest 3 24000], Inr None)"
  by (simp add: read_with_retry_def accepts_all_def default_config_def timeout_for_def
      pause_def upt_rec)

text \<open>
  Claim C1. A point read makes at most four attempts with timeouts 6000, 6000, 12000
  and 24000 ms and returns \<^verbatim>\<open>None\<close> when all of them fail, but the 500 ms sleep
  between consecutive attempts is missing on one path: when a response arrives that
  carries no \<^verbatim>\<open>propertyValue\<close> (the peer answered with an error), the loop goes
  straight to the next attempt. At that input the four requests follow each other with
  no sleep at all.
\<close>

theorem read_with_retry_no_sleep_after_errorreply:
  "read_with_retry default_config env accepts_all (\<lambda>attempt timeout. NoPropertyValue)
       ip 47808 (ascii ''analog-input'') 7 =
     ([ReadRequest 0 6000, ReadRequest 1 6000, ReadRequest 2 12000, ReadRequest 3 24000],
      Inr None)"
  by (simp add: read_with_retry_def accepts_all_def default_config_def timeout_for_def
      pause_def upt_rec)

section \<open>The per-point schedule\<close>

lemma poll_point_new:
  "point_last_poll t (point_id pt) = None \<Longrightarrow>
   poll_point c w conn now nm ts t pt =
     t\<lparr>point_last_poll := (point_last_poll t)(point_id pt \<mapsto> of_int (nm - pollInterval pt)),
       skipped_reads := skipped_reads t + 1\<rparr>"
  by (simp add: poll_point_def)

lemma poll_point_frame:
  "i \<noteq> point_id pt \<Longrightarrow> point_last_poll (poll_point c w conn now nm ts t pt) i = point_last_poll t i"
  by (auto simp: poll_point_def Let_def split: option.splits prod.splits sum.splits pyval.splits)

lemma read_ids_append: "read_ids (t\<lparr>effects := effects t @ es\<rparr>) = read_ids t @ concat (map (\<lambda>e. case e of Reading i evs \<Rightarrow> [i] | Published m \<Rightarrow> []) es)"
  by (simp add: read_ids_def)

lemma poll_point_reads:
  "set (read_ids (poll_point c w conn now nm ts t pt)) \<subseteq> set (read_ids t) \<union> {point_id pt}"
  by (auto simp: poll_point_def Let_def read_ids_def split: option.splits prod.splits sum.splits pyval.splits)

lemma poll_points_frame:
  "i \<notin> point_id ` set pts \<Longrightarrow>
   point_last_poll (poll_points c w conn now nm ts t pts) i = point_last_poll t i"
proof (induction pts arbitrary: t)
  case Nil
  then show ?case by simp
next
  case (Cons q qs)
  then have "i \<noteq> point_id q" "i \<notin> point_id ` set qs" by auto
  with Cons.IH[of "poll_point c w conn now nm ts t q"] poll_point_frame[of i q c w conn now nm ts t]
  show ?case by (simp add: Let_def)
qed

lemma poll_points_reads:
  "set (read_ids (poll_points c w conn now nm ts t pts)) \<subseteq> set (read_ids t) \<union> point_id ` set pts"
proof (induction pts arbitrary: t)
  case Nil
  then show ?case by simp
next
  case (Cons q qs)
  from Cons.IH[of "poll_point c w conn now nm ts t q"] poll_point_reads[of c w conn now nm ts t q]
  show ?case by (auto simp: Let_def)
qed




lemma read_ids_simps:
  "read_ids (t\<lparr>skipped_reads := a\<rparr>) = read_ids t"
  "read_ids (t\<lparr>total_reads := b\<rparr>) = read_ids t"
  "read_ids (t\<lparr>point_last_poll := m\<rparr>) = read_ids t"
  "read_ids (t\<lparr>raised := r\<rparr>) = read_ids t"
  by (simp_all add: read_ids_def)

lemma poll_point_read_ok:
  assumes nr: "point_id pt \<notin> set (read_ids t)"
    and rd: "point_id pt \<in> set (read_ids (poll_point c w conn now nm ts t pt))"
    and ok: "snd (read_with_retry c (py_of w) (lib_of w) (net_of w pt) (ipAddress pt) (port pt)
                   (objectType pt) (objectInstance pt)) = Inr (Some v)"
    and v: "v \<noteq> PNone"
  shows "point_last_poll (poll_point c w conn now nm ts t pt) (point_id pt) = Some now
       \<and> (\<exists>last_poll. point_last_poll t (point_id pt) = Some last_poll
              \<and> \<not> now - last_poll < of_int (pollInterval pt))"
proof (cases "point_last_poll t (point_id pt)")
  case None
  with rd nr show ?thesis by (simp add: poll_point_new read_ids_simps)
next
  case (Some last_poll)
  show ?thesis
  proof (cases "now - last_poll < of_int (pollInterval pt)")
    case True
    with Some rd nr show ?thesis by (simp add: poll_point_def read_ids_simps)
  next
    case False
    obtain evs where r: "read_with_retry c (py_of w) (lib_of w) (net_of w pt) (ipAddress pt) (port pt)
                   (objectType pt) (objectInstance pt) = (evs, Inr (Some v))"
      using ok by (cases "read_with_retry c (py_of w) (lib_of w) (net_of w pt) (ipAddress pt) (port pt)
                   (objectType pt) (objectInstance pt)") auto
    have "point_last_poll (poll_point c w conn now nm ts t pt) (point_id pt) = Some now"
      using Some False v unfolding poll_point_def Let_def r
      by (cases v) (simp_all split: option.splits sum.splits)
    then show ?thesis using Some False by simp
  qed
qed

lemma poll_points_read_ok:
  assumes "pt \<in> set pts" "distinct (map point_id pts)"
    and "point_id pt \<notin> set (read_ids t)"
    and "point_id pt \<in> set (read_ids (poll_points c w conn now nm ts t pts))"
    and ok: "snd (read_with_retry c (py_of w) (lib_of w) (net_of w pt) (ipAddress pt) (port pt)
                   (objectType pt) (objectInstance pt)) = Inr (Some v)"
    and v: "v \<noteq> PNone"
  shows "point_last_poll (poll_points c w conn now nm ts t pts) (point_id pt) = Some now
       \<and> (\<exists>last_poll. point_last_poll t (point_id pt) = Some last_poll
              \<and> \<not> now - last_poll < of_int (pollInterval pt))"
  using assms(1-4)
proof (induction pts arbitrary: t)
  case Nil
  then show ?case by simp
next
  case (Cons q qs)
  let ?t' = "poll_point c w conn now nm ts t q"
  show ?case
  proof (cases "q = pt")
    case True
    have notin: "point_id pt \<notin> point_id ` set qs" using Cons.prems(2) True by simp
    have "set (read_ids (poll_points c w conn now nm ts ?t' qs)) \<subseteq> set (read_ids ?t') \<union> point_id ` set qs"
      by (rule poll_points_reads)
    moreover have "point_id pt \<in> set (read_ids (if raised ?t' \<noteq> None then ?t' else poll_points c w conn now nm ts ?t' qs))"
      using Cons.prems(4) by (simp add: Let_def)
    ultimately have rd: "point_id pt \<in> set (read_ids (poll_point c w conn now nm ts t pt))"
      using notin True by (auto split: if_splits)
    note one = poll_point_read_ok[OF Cons.prems(3) rd ok v]
    have "point_last_poll (poll_points c w conn now nm ts ?t' qs) (point_id pt) = Some now"
      using poll_points_frame[OF notin, of c w conn now nm ts ?t'] one True by simp
    then show ?thesis using one True by (simp add: Let_def)
  next
    case False
    then have inqs: "pt \<in> set qs" using Cons.prems(1) by simp
    then have "point_id pt \<in> point_id ` set qs" by (rule imageI)
    then have ne: "point_id pt \<noteq> point_id q" using Cons.prems(2) by auto
    have e: "point_last_poll ?t' (point_id pt) = point_last_poll t (point_id pt)"
      using poll_point_frame[OF ne, of c w conn now nm ts t] by simp
    have r: "point_id pt \<notin> set (read_ids ?t')"
      using poll_point_reads[of c w conn now nm ts t q] Cons.prems(3) ne by blast
    have d: "distinct (map point_id qs)" using Cons.prems(2) by simp
    have cont: "raised ?t' = None" and rd: "point_id pt \<in> set (read_ids (poll_points c w conn now nm ts ?t' qs))"
      using Cons.prems(4) r by (auto simp: Let_def split: if_splits)
    from Cons.IH[OF inqs d r rd] e cont show ?thesis by (simp add: Let_def)
  qed
qed

text \<open>
  Claim C2. A point read successfully in a cycle at time \<open>now\<close> gets \<open>now\<close> as the time of its
  last poll, so it is next due at \<open>now\<close> plus its interval; the time it had been due at
  was not after \<open>now\<close>.
\<close>

theorem successful_read_restarts_interval:
  assumes "pt \<in> set points" and "distinct (map point_id points)"
    and "point_id pt \<in> set (read_ids (run_tick c w s points now ts))"
    and "snd (read_with_retry c (py_of w) (lib_of w) (net_of w pt) (ipAddress pt) (port pt)
                   (objectType pt) (objectInstance pt)) = Inr (Some v)"
    and "v \<noteq> PNone"
  shows "last_poll_of (poll_and_publish c w s points now ts) (point_id pt) = Some now
       \<and> nextDueAt (poll_and_publish c w s points now ts) pt = Some (now + of_int (pollInterval pt))
       \<and> (\<exists>due. nextDueAt s pt = Some due \<and> due \<le> now)"
proof -
  let ?tick = "run_tick c w s points now ts"
  have ne: "points \<noteq> []" using assms(1) by auto
  have s': "last_poll_of (poll_and_publish c w s points now ts) = point_last_poll ?tick"
    using ne by (simp add: poll_and_publish_def Let_def)
  have r0: "point_id pt \<notin> set (read_ids (start_tick s))"
    by (simp add: start_tick_def read_ids_def)
  note l = poll_points_read_ok[OF assms(1,2) r0 assms(3)[unfolded run_tick_def] assms(4,5)]
  then obtain last_poll where lp: "last_poll_of s (point_id pt) = Some last_poll"
    and due: "\<not> now - last_poll < of_int (pollInterval pt)"
    by (auto simp: start_tick_def)
  have "nextDueAt s pt = Some (last_poll + of_int (pollInterval pt))"
    by (simp add: nextDueAt_def lp)
  moreover have "last_poll + of_int (pollInterval pt) \<le> now" using due by simp
  moreover have "last_poll_of (poll_and_publish c w s points now ts) (point_id pt) = Some now"
    using l unfolding s' run_tick_def by blast
  ultimately show ?thesis by (simp add: nextDueAt_def)
qed

lemma s1_decodes: "extract_value digits_only s1_payload = Inr (Some (PFloat (Finite 123)))"
  by (simp add: extract_value_def extract_value_body_def s1_payload_def passes_through_def
      value_of_attr_def looks_like_object_def ascii_def from_tags_def decode_tag_def unpack_f_def
      from_bytes_big_def ieee_decode_def Let_def)

lemma steady_read:
  "read_with_retry default_config digits_only accepts_all (answering pt) ip p ot oi =
     ([ReadRequest 0 6000], Inr (Some (PFloat (Finite 123))))"
  by (simp add: read_with_retry_def accepts_all_def default_config_def timeout_for_def
      answering_def upt_rec s1_decodes)

lemma sample_point_simps:
  "point_id sample_point = 7" "pollInterval sample_point = 60"
  "ipAddress sample_point = ascii ''192.168.1.50''" "port sample_point = 47808"
  "objectType sample_point = ascii ''analog-input''" "objectInstance sample_point = 7"
  "present (siteId sample_point)" "present (equipmentType sample_point)"
  "present (equipmentId sample_point)"
  by (simp_all add: sample_point_def present_def ascii_def)

lemma steady_world_simps:
  "py_of steady_world = digits_only" "lib_of steady_world = accepts_all"
  "net_of steady_world = answering" "broker_of steady_world = accepting_broker"
  by (simp_all add: steady_world_def)

lemma late_tick:
  "point_last_poll (run_tick default_config steady_world polled_publisher [sample_point]
                      1709287263 stamp) 7 = Some 1709287263"
  "read_ids (run_tick default_config steady_world polled_publisher [sample_point]
                      1709287263 stamp) = [7]"
  "successful_reads (run_tick default_config steady_world polled_publisher [sample_point]
                      1709287263 stamp) = 1"
  by (simp_all add: run_tick_def start_tick_def polled_publisher_def poll_point_def Let_def
      sample_point_simps steady_world_simps steady_read batch_value_def read_ids_def
      split: option.splits)

text \<open>
  A point due at 10:01:00 and read three seconds late is next due at 10:02:03, not at
  10:02:00.
\<close>

theorem next_due_drifts_with_read_time:
  "nextDueAt polled_publisher sample_point = Some 1709287260
   \<and> (1709287263 :: real) < 1709287260 + 60
   \<and> read_ids (run_tick default_config steady_world polled_publisher [sample_point]
                  1709287263 stamp) = [7]
   \<and> successful_reads (run_tick default_config steady_world polled_publisher [sample_point]
                  1709287263 stamp) = 1
   \<and> nextDueAt (poll_and_publish default_config steady_world polled_publisher [sample_point]
                  1709287263 stamp) sample_point = Some 1709287323
   \<and> nextDueAt (poll_and_publish default_config steady_world polled_publisher [sample_point]
                  1709287263 stamp) sample_point \<noteq> Some (1709287260 + 60)"
proof -
  have a: "nextDueAt polled_publisher sample_point = Some 1709287260"
    by (simp add: nextDueAt_def polled_publisher_def sample_point_simps)
  have b: "nextDueAt (poll_and_publish default_config steady_world polled_publisher [sample_point]
                  1709287263 stamp) sample_point = Some 1709287323"
    by (simp add: nextDueAt_def poll_and_publish_def Let_def sample_point_simps late_tick)
  show ?thesis using a b late_tick(2,3) by simp
qed

text \<open>The same cycle: the read at 10:01:03 makes 10:01:03 the time of the last poll.\<close>

theorem successful_read_restarts_interval_witness:
  "sample_point \<in> set [sample_point] \<and> distinct (map point_id [sample_point])
   \<and> point_id sample_point \<in> set (read_ids (run_tick default_config steady_world
         polled_publisher [sample_point] 1709287263 stamp))
   \<and> snd (read_with_retry default_config (py_of steady_world) (lib_of steady_world)
            (net_of steady_world sample_point) (ipAddress sample_point) (port sample_point)
            (objectType sample_point) (objectInstance sample_point))
       = Inr (Some (PFloat (Finite 123)))
   \<and> last_poll_of (poll_and_publish default_config steady_world polled_publisher [sample_point]
         1709287263 stamp) (point_id sample_point) = Some 1709287263
   \<and> nextDueAt (poll_and_publish default_config steady_world polled_publisher [sample_point]
         1709287263 stamp) sample_point = Some (1709287263 + of_int (pollInterval sample_point))"
proof -
  have h1: "sample_point \<in> set [sample_point]" by simp
  have h2: "distinct (map point_id [sample_point])" by simp
  have h3: "point_id sample_point \<in> set (read_ids (run_tick default_config steady_world
         polled_publisher [sample_point] 1709287263 stamp))"
    by (simp add: late_tick sample_point_simps)
  have h4: "snd (read_with_retry default_config (py_of steady_world) (lib_of steady_world)
            (net_of steady_world sample_point) (ipAddress sample_point) (port sample_point)
            (objectType sample_point) (objectInstance sample_point))
       = Inr (Some (PFloat (Finite 123)))"
    by (simp add: steady_world_simps steady_read)
  have h5: "PFloat (Finite 123) \<noteq> PNone" by simp
  from successful_read_restarts_interval[OF h1 h2 h3 h4 h5] h1 h2 h3 h4
  show ?thesis by blast
qed



section \<open>Published payloads\<close>

lemma clean_value_kind: "clean_value env x = Inr cv \<Longrightarrow> cv \<noteq> PNone"
  by (cases x) (auto split: if_splits sum.splits option.splits)

lemma clean_value_float: "clean_value env (PFloat f) = Inr (PFloat f)"
  by simp

lemma publish_Some:
  assumes "publish_individual_topic env broker conn pt v ts = Some m"
  shows "\<exists>cv. clean_value env v = Inr cv \<and> payload_value (payload m) = cv
              \<and> payload_quality (payload m) = ascii ''good''"
  using assms unfolding publish_individual_topic_def Let_def
  by (cases v) (auto split: option.splits if_splits sum.splits)

text \<open>
  Claim C8. Every individual payload that is published carries the quality \<^verbatim>\<open>good\<close> and a
  value that is not null; a float is published as it is, a NaN or an infinity
  included.
\<close>

theorem published_quality_is_always_good:
  assumes "publish_individual_topic env broker conn pt v ts = Some m"
  shows "payload_quality (payload m) = ascii ''good'' \<and> payload_value (payload m) \<noteq> PNone
       \<and> (\<forall>f. v = PFloat f \<longrightarrow> payload_value (payload m) = PFloat f)"
  using publish_Some[OF assms] clean_value_kind[of env v] by auto

lemma publish_nan:
  "publish_individual_topic digits_only accepting_broker True sample_point (PFloat NaN) stamp =
     Some \<lparr>topic = ascii ''site/ahu_1/sat/presentValue'',
           payload = \<lparr>payload_value = PFloat NaN, payload_timestamp = stamp,
                      payload_units = Some (ascii ''degC''), payload_quality = ascii ''good'',
                      payload_dis = Some (ascii ''Supply air temperature''),
                      payload_haystackName = Some (ascii ''site.ahu.1.sensor.temp.air.supply''),
                      payload_deviceIp = ascii ''192.168.1.50'', payload_deviceId = 3056496,
                      payload_objectType = ascii ''analog-input'', payload_objectInstance = 7\<rparr>,
           message_qos = 1, retain = False\<rparr>"
  by (simp add: publish_individual_topic_def sample_point_def accepting_broker_def ascii_def)

text \<open>A NaN read from sample point 7 is published as NaN with quality \<^verbatim>\<open>good\<close>.\<close>

theorem nan_is_published_as_good:
  "map_option (payload_value \<circ> payload)
      (publish_individual_topic digits_only accepting_broker True sample_point (PFloat NaN) stamp)
     = Some (PFloat NaN)
   \<and> map_option (payload_quality \<circ> payload)
      (publish_individual_topic digits_only accepting_broker True sample_point (PFloat NaN) stamp)
     = Some (ascii ''good'')
   \<and> PFloat NaN \<noteq> PNone \<and> ascii ''good'' \<noteq> ascii ''uncertain''"
  by (simp add: publish_nan) (simp add: ascii_def)

text \<open>An infinity is published as it is, with quality \<^verbatim>\<open>good\<close>.\<close>

theorem published_quality_is_always_good_witness:
  "publish_individual_topic digits_only accepting_broker True sample_point (PFloat PosInf) stamp
     \<noteq> None
   \<and> payload_quality (payload (the (publish_individual_topic digits_only accepting_broker True
         sample_point (PFloat PosInf) stamp))) = ascii ''good''
   \<and> payload_value (payload (the (publish_individual_topic digits_only accepting_broker True
         sample_point (PFloat PosInf) stamp))) = PFloat PosInf"
proof -
  have "publish_individual_topic digits_only accepting_broker True sample_point (PFloat PosInf) stamp
     \<noteq> None"
    by (simp add: publish_individual_topic_def sample_point_def accepting_broker_def ascii_def)
  then obtain m where m: "publish_individual_topic digits_only accepting_broker True sample_point
      (PFloat PosInf) stamp = Some m" by blast
  from published_quality_is_always_good[OF m] m show ?thesis by simp
qed

section \<open>Write requests\<close>

lemma nearest_double_small: "\<bar>i\<bar> < 2 ^ 53 \<Longrightarrow> nearest_double i = i"
  unfolding nearest_double_def Let_def by (simp add: sgn_if)

lemma py_float_small: "\<bar>i\<bar> < 2 ^ 53 \<Longrightarrow> py_float env (PInt i) = Inr (Finite (of_int i))"
proof -
  assume a: "\<bar>i\<bar> < 2 ^ 53"
  have "(2::int) ^ 53 < float_max_int" by (simp add: float_max_int_def)
  with a have "\<bar>i\<bar> < float_max_int" by linarith
  then show ?thesis using nearest_double_small[OF a] by simp
qed

lemma multi_state_contains:
  "ot \<in> set multi_state_types \<Longrightarrow> str_contains ot (ascii ''multi-state'')"
proof -
  have "str_contains (ascii ''multi-state-input'') (ascii ''multi-state'')"
    "str_contains (ascii ''multi-state-output'') (ascii ''multi-state'')"
    "str_contains (ascii ''multi-state-value'') (ascii ''multi-state'')"
    by (simp_all add: ascii_def)
  moreover assume "ot \<in> set multi_state_types"
  ultimately show ?thesis unfolding multi_state_types_def by (elim set_ConsD[elim_format]) auto
qed

lemma prepare_release:
  "truthy rel \<Longrightarrow>
   prepare_value env l ot v rel = (if Null_ok l then Inr Null else Inl LibraryError)"
  by (simp add: prepare_value_def)

lemma prepare_int:
  "written_as_int ot \<Longrightarrow> \<not> truthy rel \<Longrightarrow>
   prepare_value env l (PStr ot) v rel =
     (case py_int env v of Inl e \<Rightarrow> Inl e | Inr n \<Rightarrow> mk_unsigned l n)"
  using multi_state_contains[of ot] by (auto simp: prepare_value_def written_as_int_def)

lemma prepare_bit:
  "written_as_bit ot \<Longrightarrow> \<not> truthy rel \<Longrightarrow>
   prepare_value env l (PStr ot) v rel = mk_unsigned l (if truthy v then 1 else 0)"
  by (simp add: prepare_value_def written_as_bit_def)

lemma prepare_real:
  "written_as_real ot \<Longrightarrow> \<not> truthy rel \<Longrightarrow>
   prepare_value env l (PStr ot) v rel = map_sum id RealValue (py_float env v)"
  by (auto simp: prepare_value_def written_as_real_def written_as_int_def written_as_bit_def)

lemma write_sent:
  "fst (write_bacnet_value env l device ip p ot oi v prio rel) =
     (case obj_type_bacnet_of ot of
        Inl e \<Rightarrow> None
      | Inr tb \<Rightarrow>
          if Address_ok l ip p \<and> ObjectIdentifier_ok l tb oi
          then (case prepare_value env l ot v rel of
                  Inl e \<Rightarrow> None
                | Inr wv \<Rightarrow> Some \<lparr>destination = (ip, p), objectIdentifier = (tb, oi),
                                    propertyIdentifier = ascii ''presentValue'',
                                    propertyValue = wv\<rparr>)
          else None)"
  unfolding write_bacnet_value_def Let_def
  by (auto split: sum.splits write_outcome.splits)

lemma execute_sent:
  "fst (execute_write_command env l device command) =
     fst (write_bacnet_value env l device (deviceIp command) 47808 (command_objectType command)
            (command_objectInstance command) (command_value command) (get_priority command)
            (get_release command))"
  unfolding execute_write_command_def Let_def by (simp split: prod.splits)

lemma execute_target_ok:
  assumes "obj_type_bacnet_of (command_objectType command) = Inr tb"
    and "Address_ok l (deviceIp command) 47808"
    and "ObjectIdentifier_ok l tb (command_objectInstance command)"
  shows "fst (execute_write_command env l device command) =
     (case prepare_value env l (command_objectType command) (command_value command)
             (get_release command) of
        Inl e \<Rightarrow> None
      | Inr wv \<Rightarrow> Some (request_with command tb wv))"
  unfolding execute_sent write_sent using assms
  by (simp add: request_with_def split: sum.splits)

lemma execute_target_refused:
  assumes "\<not> (\<exists>tb. obj_type_bacnet_of (command_objectType command) = Inr tb
              \<and> Address_ok l (deviceIp command) 47808
              \<and> ObjectIdentifier_ok l tb (command_objectInstance command))"
  shows "fst (execute_write_command env l device command) = None"
  unfolding execute_sent write_sent using assms
  by (auto split: sum.splits)

text \<open>
  Claim C5. With a target that the library builds and an object type that is a string, the
  request that goes out, if one does, carries the value that the tests on the object type
  choose. Without a release: the three multi-state types spelled with hyphens (and a name
  holding both \<^verbatim>\<open>analog\<close> and \<^verbatim>\<open>multi-state\<close>) send \<^verbatim>\<open>Unsigned(int(value))\<close>; a name
  holding \<^verbatim>\<open>binary\<close> and not \<^verbatim>\<open>analog\<close> sends \<^verbatim>\<open>Unsigned(1)\<close> for a truthy value and
  \<^verbatim>\<open>Unsigned(0)\<close> else; every other name sends \<^verbatim>\<open>Real(float(value))\<close>; nothing is
  sent when the conversion raises or the library refuses the number. A truthy
  \<^verbatim>\<open>release\<close> sends what \<^verbatim>\<open>Null()\<close> gives, whatever the value and the object type,
  if the library makes a value of it.
\<close>

theorem write_value_follows_object_type:
  assumes "command_objectType command = PStr ot"
    and "obj_type_bacnet_of (command_objectType command) = Inr tb"
    and "Address_ok l (deviceIp command) 47808"
    and "ObjectIdentifier_ok l tb (command_objectInstance command)"
  shows "(truthy (get_release command) \<longrightarrow>
            fst (execute_write_command env l device command) =
              (if Null_ok l then Some (request_with command tb Null) else None))
       \<and> (\<not> truthy (get_release command) \<longrightarrow>
            (written_as_int ot \<longrightarrow>
               fst (execute_write_command env l device command) =
                 (case py_int env (command_value command) of
                    Inr n \<Rightarrow> if Unsigned_ok l n then Some (request_with command tb (Unsigned n))
                             else None
                  | Inl e \<Rightarrow> None))
          \<and> (written_as_bit ot \<longrightarrow>
               fst (execute_write_command env l device command) =
                 (if Unsigned_ok l (if truthy (command_value command) then 1 else 0)
                  then Some (request_with command tb
                               (Unsigned (if truthy (command_value command) then 1 else 0)))
                  else None))
          \<and> (written_as_real ot \<longrightarrow>
               fst (execute_write_command env l device command) =
                 (case py_float env (command_value command) of
                    Inr f \<Rightarrow> Some (request_with command tb (RealValue f))
                  | Inl e \<Rightarrow> None)))"
proof -
  note sent = execute_target_ok[OF assms(2,3,4), of env device]
  have rel: "fst (execute_write_command env l device command) =
              (if Null_ok l then Some (request_with command tb Null) else None)"
    if "truthy (get_release command)"
    unfolding sent using that by (simp add: prepare_release)
  have i: "fst (execute_write_command env l device command) =
                 (case py_int env (command_value command) of
                    Inr n \<Rightarrow> if Unsigned_ok l n then Some (request_with command tb (Unsigned n))
                             else None
                  | Inl e \<Rightarrow> None)"
    if "\<not> truthy (get_release command)" "written_as_int ot"
    unfolding sent assms(1) prepare_int[OF that(2,1)]
    by (simp add: mk_unsigned_def split: sum.splits)
  have b: "fst (execute_write_command env l device command) =
                 (if Unsigned_ok l (if truthy (command_value command) then 1 else 0)
                  then Some (request_with command tb
                               (Unsigned (if truthy (command_value command) then 1 else 0)))
                  else None)"
    if "\<not> truthy (get_release command)" "written_as_bit ot"
    unfolding sent assms(1) prepare_bit[OF that(2,1)]
    by (simp add: mk_unsigned_def)
  have r: "fst (execute_write_command env l device command) =
                 (case py_float env (command_value command) of
                    Inr f \<Rightarrow> Some (request_with command tb (RealValue f))
                  | Inl e \<Rightarrow> None)"
    if "\<not> truthy (get_release command)" "written_as_real ot"
    unfolding sent assms(1) prepare_real[OF that(2,1)]
    by (simp split: sum.splits)
  show ?thesis using rel i b r by blast
qed

lemma write_ignores_priority:
  "write_bacnet_value env l device ip p ot oi v prio rel =
   write_bacnet_value env l device ip p ot oi v prio' rel"
  by (simp add: write_bacnet_value_def)

lemma prepared_iff:
  "(\<exists>wv. prepare_value env l object_type v rel = Inr wv) \<longleftrightarrow>
     (if truthy rel then Null_ok l
      else (\<exists>ot. object_type = PStr ot \<and> value_is_built env l ot v))"
proof (cases "truthy rel")
  case True
  then show ?thesis by (simp add: prepare_release)
next
  case False
  show ?thesis
  proof (cases object_type)
    case (PStr ot)
    consider "written_as_int ot" | "\<not> written_as_int ot" "written_as_bit ot"
      | "written_as_real ot" unfolding written_as_real_def by blast
    then show ?thesis
    proof cases
      case 1
      then show ?thesis using False PStr
        by (simp add: prepare_int value_is_built_def mk_unsigned_def split: sum.splits)
    next
      case 2
      then show ?thesis using False PStr
        by (simp add: prepare_bit value_is_built_def mk_unsigned_def)
    next
      case 3
      then show ?thesis using False PStr
        by (simp add: prepare_real value_is_built_def written_as_real_def split: sum.splits)
    qed
  qed (simp_all add: prepare_value_def False)
qed

text \<open>
  Claim C4. A queued command is not validated before it is executed. A write request goes out
  exactly when the object type can be looked up, the library builds the address and the
  object identifier, and the value is built: for a release, the library makes a value of
  \<^verbatim>\<open>Null()\<close>; otherwise the object type is a string and, by the tests on it,
  \<^verbatim>\<open>int(value)\<close> returns a number that \<^verbatim>\<open>Unsigned\<close> takes, or \<^verbatim>\<open>Unsigned\<close> takes 1 or 0,
  or \<^verbatim>\<open>float(value)\<close> returns. The priority, the job id, the device id and the point
  name play no part in it.
\<close>

theorem write_is_not_validated:
  "(fst (execute_write_command env l device command) \<noteq> None \<longleftrightarrow>
      (\<exists>tb. obj_type_bacnet_of (command_objectType command) = Inr tb
          \<and> Address_ok l (deviceIp command) 47808
          \<and> ObjectIdentifier_ok l tb (command_objectInstance command))
      \<and> (if truthy (get_release command) then Null_ok l
         else (\<exists>ot. command_objectType command = PStr ot
                  \<and> value_is_built env l ot (command_value command))))
   \<and> fst (execute_write_command env l device
             (command\<lparr>priority := p, jobId := j, command_deviceId := d, pointName := n\<rparr>))
       = fst (execute_write_command env l device command)"
proof
  show "fst (execute_write_command env l device command) \<noteq> None \<longleftrightarrow>
      (\<exists>tb. obj_type_bacnet_of (command_objectType command) = Inr tb
          \<and> Address_ok l (deviceIp command) 47808
          \<and> ObjectIdentifier_ok l tb (command_objectInstance command))
      \<and> (if truthy (get_release command) then Null_ok l
         else (\<exists>ot. command_objectType command = PStr ot
                  \<and> value_is_built env l ot (command_value command)))"
  proof (cases "\<exists>tb. obj_type_bacnet_of (command_objectType command) = Inr tb
          \<and> Address_ok l (deviceIp command) 47808
          \<and> ObjectIdentifier_ok l tb (command_objectInstance command)")
    case False
    from execute_target_refused[OF this, of env device] False show ?thesis by simp
  next
    case True
    then obtain tb where tb: "obj_type_bacnet_of (command_objectType command) = Inr tb"
      "Address_ok l (deviceIp command) 47808"
      "ObjectIdentifier_ok l tb (command_objectInstance command)" by blast
    have "fst (execute_write_command env l device command) \<noteq> None \<longleftrightarrow>
          (\<exists>wv. prepare_value env l (command_objectType command) (command_value command)
                  (get_release command) = Inr wv)"
      unfolding execute_target_ok[OF tb, of env device] by (simp split: sum.splits)
    then show ?thesis using True unfolding prepared_iff by simp
  qed
  show "fst (execute_write_command env l device
             (command\<lparr>priority := p, jobId := j, command_deviceId := d, pointName := n\<rparr>))
       = fst (execute_write_command env l device command)"
    unfolding execute_sent
    using write_ignores_priority[of env l device "deviceIp command" 47808
        "command_objectType command" "command_objectInstance command" "command_value command"
        "get_priority (command\<lparr>priority := p, jobId := j, command_deviceId := d, pointName := n\<rparr>)"
        "get_release command" "get_priority command"]
    by (simp add: get_release_def)
qed

text \<open>
  A command with priority 99, valid in everything else, is written to the device.
\<close>

theorem write_goes_out_unvalidated:
  "\<not> spec_valid_command priority_99_command
   \<and> spec_valid_command (priority_99_command\<lparr>priority := Some (PInt 16)\<rparr>)
   \<and> fst (execute_write_command digits_only accepts_all always_acks priority_99_command)
       = Some \<lparr>destination = (PStr (ascii ''192.168.1.50''), 47808),
               objectIdentifier = (PStr (ascii ''analogOutput''), PInt 2),
               propertyIdentifier = ascii ''presentValue'',
               propertyValue = RealValue (Finite 21)\<rparr>"
  by (simp add: spec_valid_command_def priority_99_command_def s3_command_def
      obj_type_map_write_def obj_type_map_read_def execute_sent write_bacnet_value_def
      obj_type_bacnet_of_def accepts_all_def always_acks_def prepare_value_def get_release_def
      get_priority_def multi_state_types_def float_max_int_def ascii_def)

lemma sample_targets:
  "obj_type_bacnet_of (PStr (ascii ''analog-output'')) = Inr (PStr (ascii ''analogOutput''))"
  "obj_type_bacnet_of (PStr (ascii ''binary-output'')) = Inr (PStr (ascii ''binaryOutput''))"
  "obj_type_bacnet_of (PStr (ascii ''multi-state-value'')) = Inr (PStr (ascii ''multiStateValue''))"
  "obj_type_bacnet_of (PStr (ascii ''multiStateOutput'')) = Inr (PStr (ascii ''multiStateOutput''))"
  by (simp_all add: obj_type_bacnet_of_def obj_type_map_write_def obj_type_map_read_def ascii_def)

lemma sample_kinds:
  "written_as_real (ascii ''analog-output'')"
  "written_as_bit (ascii ''binary-output'')"
  "written_as_int (ascii ''multi-state-value'')"
  "written_as_real (ascii ''multiStateOutput'')"
  by (simp_all add: written_as_real_def written_as_int_def written_as_bit_def
      multi_state_types_def ascii_def)

lemma sample_commands:
  "command_objectType priority_99_command = PStr (ascii ''analog-output'')"
  "command_objectType binary_command = PStr (ascii ''binary-output'')"
  "command_objectType multi_state_command = PStr (ascii ''multi-state-value'')"
  "command_objectType camel_case_command = PStr (ascii ''multiStateOutput'')"
  "command_value priority_99_command = PFloat (Finite 21)"
  "command_value binary_command = PStr (ascii ''off'')"
  "command_value multi_state_command = PInt 3"
  "command_value camel_case_command = PInt 3"
  "\<not> truthy (get_release priority_99_command)"
  "\<not> truthy (get_release binary_command)"
  "\<not> truthy (get_release multi_state_command)"
  "\<not> truthy (get_release camel_case_command)"
  by (simp_all add: priority_99_command_def binary_command_def multi_state_command_def
      camel_case_command_def s3_command_def get_release_def)

text \<open>The same command goes out, with priority 99 as with priority 8.\<close>

theorem write_is_not_validated_witness:
  "fst (execute_write_command digits_only accepts_all always_acks priority_99_command) \<noteq> None
   \<and> value_is_built digits_only accepts_all (ascii ''analog-output'') (PFloat (Finite 21))
   \<and> fst (execute_write_command digits_only accepts_all always_acks
            (priority_99_command\<lparr>priority := Some (PInt 8), jobId := PNone,
                                  command_deviceId := PNone, pointName := None\<rparr>))
       = fst (execute_write_command digits_only accepts_all always_acks priority_99_command)"
proof -
  have v: "value_is_built digits_only accepts_all (ascii ''analog-output'') (PFloat (Finite 21))"
    using sample_kinds(1) by (simp add: value_is_built_def written_as_real_def)
  have "(\<exists>tb. obj_type_bacnet_of (command_objectType priority_99_command) = Inr tb
          \<and> Address_ok accepts_all (deviceIp priority_99_command) 47808
          \<and> ObjectIdentifier_ok accepts_all tb (command_objectInstance priority_99_command))
      \<and> (if truthy (get_release priority_99_command) then Null_ok accepts_all
         else (\<exists>ot. command_objectType priority_99_command = PStr ot
                  \<and> value_is_built digits_only accepts_all ot (command_value priority_99_command)))"
    using v by (simp add: sample_commands sample_targets accepts_all_def)
  with write_is_not_validated[where env = digits_only and l = accepts_all
      and device = always_acks and command = priority_99_command and p = "Some (PInt 8)"
      and j = PNone and d = PNone and n = None] v
  show ?thesis by blast
qed

text \<open>
  Three commands that no validation would let through and their fate: a multi-state
  value of -1 converts and is refused by \<^verbatim>\<open>Unsigned\<close>, so nothing is sent; a binary
  output with a list for a value, which neither \<^verbatim>\<open>int\<close> nor \<^verbatim>\<open>float\<close> converts, is
  written as 0; a number for an object type raises at the test of line 550.
\<close>

lemma unvalidated_corner_cases:
  "fst (execute_write_command digits_only accepts_all always_acks
          (multi_state_command\<lparr>command_value := PInt (- 1)\<rparr>)) = None"
  "fst (execute_write_command digits_only accepts_all always_acks
          (binary_command\<lparr>command_value := POther False (ascii ''[]'')\<rparr>))
     = Some \<lparr>destination = (PStr (ascii ''192.168.1.50''), 47808),
             objectIdentifier = (PStr (ascii ''binaryOutput''), PInt 2),
             propertyIdentifier = ascii ''presentValue'', propertyValue = Unsigned 0\<rparr>"
  "fst (execute_write_command digits_only accepts_all always_acks
          (priority_99_command\<lparr>command_objectType := PInt 5\<rparr>)) = None"
proof -
  have ok: "Address_ok accepts_all a 47808" "ObjectIdentifier_ok accepts_all tb oi"
    "\<not> Unsigned_ok accepts_all (- 1)" "Unsigned_ok accepts_all 0" for a tb oi
    by (simp_all add: accepts_all_def)
  have i: "prepare_value digits_only accepts_all (PStr (ascii ''multi-state-value''))
             (PInt (- 1)) (PBool False) = Inl LibraryError"
    using prepare_int[OF sample_kinds(3), of "PBool False" digits_only accepts_all "PInt (- 1)"]
      ok(3) by (simp add: mk_unsigned_def)
  have b: "prepare_value digits_only accepts_all (PStr (ascii ''binary-output''))
             (POther False (ascii ''[]'')) (PBool False) = Inr (Unsigned 0)"
    using prepare_bit[OF sample_kinds(2), of "PBool False" digits_only accepts_all
        "POther False (ascii ''[]'')"] ok(4) by (simp add: mk_unsigned_def)
  have n: "prepare_value digits_only accepts_all (PInt 5) (PFloat (Finite 21)) (PBool False)
             = Inl TypeError"
    by (simp add: prepare_value_def)
  have t: "obj_type_bacnet_of (PInt 5) = Inr (PInt 5)" by (simp add: obj_type_bacnet_of_def)
  show "fst (execute_write_command digits_only accepts_all always_acks
          (multi_state_command\<lparr>command_value := PInt (- 1)\<rparr>)) = None"
    unfolding execute_sent write_sent
    by (simp add: multi_state_command_def s3_command_def sample_targets get_release_def ok i)
  show "fst (execute_write_command digits_only accepts_all always_acks
          (binary_command\<lparr>command_value := POther False (ascii ''[]'')\<rparr>))
     = Some \<lparr>destination = (PStr (ascii ''192.168.1.50''), 47808),
             objectIdentifier = (PStr (ascii ''binaryOutput''), PInt 2),
             propertyIdentifier = ascii ''presentValue'', propertyValue = Unsigned 0\<rparr>"
    unfolding execute_sent write_sent
    by (simp add: binary_command_def s3_command_def sample_targets get_release_def ok b)
  show "fst (execute_write_command digits_only accepts_all always_acks
          (priority_99_command\<lparr>command_objectType := PInt 5\<rparr>)) = None"
    unfolding execute_sent write_sent
    by (simp add: priority_99_command_def s3_command_def t get_release_def ok n)
qed

text \<open>
  Scenario S3, the release of analog output 2: where the library makes a value of
  \<^verbatim>\<open>Null()\<close> the request carries Null, and where it makes none nothing is sent and the
  result reports the failure.
\<close>

lemma release_needs_null:
  "fst (execute_write_command digits_only accepts_all always_acks s3_command)
     = Some \<lparr>destination = (PStr (ascii ''192.168.1.50''), 47808),
             objectIdentifier = (PStr (ascii ''analogOutput''), PInt 2),
             propertyIdentifier = ascii ''presentValue'', propertyValue = Null\<rparr>"
  "fst (execute_write_command digits_only without_null always_acks s3_command) = None"
  "result_success (snd (execute_write_command digits_only without_null always_acks s3_command))
     = False"
  by (simp_all add: execute_write_command_def write_bacnet_value_def s3_command_def
      sample_targets get_release_def get_priority_def get_pointName_def accepts_all_def
      without_null_def prepare_value_def always_acks_def)

text \<open>
  An analog output takes 21.0 as a Real, a binary output takes the string \<^verbatim>\<open>off\<close>, which
  is truthy, as the Unsigned 1, and a multi-state value takes 3 as the Unsigned 3.
\<close>

theorem write_value_follows_object_type_witness:
  "fst (execute_write_command digits_only accepts_all always_acks priority_99_command)
     = Some (request_with priority_99_command (PStr (ascii ''analogOutput''))
               (RealValue (Finite 21)))
   \<and> fst (execute_write_command digits_only accepts_all always_acks binary_command)
     = Some (request_with binary_command (PStr (ascii ''binaryOutput'')) (Unsigned 1))
   \<and> fst (execute_write_command digits_only accepts_all always_acks multi_state_command)
     = Some (request_with multi_state_command (PStr (ascii ''multiStateValue'')) (Unsigned 3))"
proof -
  have ok: "Address_ok accepts_all a 47808" "ObjectIdentifier_ok accepts_all tb oi"
    "Unsigned_ok accepts_all 1" "Unsigned_ok accepts_all 3" for a tb oi
    by (simp_all add: accepts_all_def)
  have t: "truthy (PStr (ascii ''off''))" by (simp add: ascii_def)
  have a: "obj_type_bacnet_of (command_objectType priority_99_command)
             = Inr (PStr (ascii ''analogOutput''))"
    and b: "obj_type_bacnet_of (command_objectType binary_command)
             = Inr (PStr (ascii ''binaryOutput''))"
    and m: "obj_type_bacnet_of (command_objectType multi_state_command)
             = Inr (PStr (ascii ''multiStateValue''))"
    by (simp_all only: sample_commands sample_targets)
  from write_value_follows_object_type[OF sample_commands(1) a ok(1) ok(2),
      of digits_only always_acks] sample_commands(9) sample_kinds(1)
  have 1: "fst (execute_write_command digits_only accepts_all always_acks priority_99_command)
     = Some (request_with priority_99_command (PStr (ascii ''analogOutput''))
               (RealValue (Finite 21)))"
    by (simp add: sample_commands(5))
  from write_value_follows_object_type[OF sample_commands(2) b ok(1) ok(2),
      of digits_only always_acks] sample_commands(10) sample_kinds(2)
  have 2: "fst (execute_write_command digits_only accepts_all always_acks binary_command)
     = Some (request_with binary_command (PStr (ascii ''binaryOutput'')) (Unsigned 1))"
    using t ok(3) by (simp add: sample_commands(6))
  from write_value_follows_object_type[OF sample_commands(3) m ok(1) ok(2),
      of digits_only always_acks] sample_commands(11) sample_kinds(3)
  have 3: "fst (execute_write_command digits_only accepts_all always_acks multi_state_command)
     = Some (request_with multi_state_command (PStr (ascii ''multiStateValue'')) (Unsigned 3))"
    using ok(4) by (simp add: sample_commands(7))
  from 1 2 3 show ?thesis by blast
qed

text \<open>
  A multi-state output named as BACnet names it, \<^verbatim>\<open>multiStateOutput\<close>: the contract of
  the specification makes the Unsigned 3 of the value 3, the code writes the Real 3.0.
\<close>

theorem camel_case_multi_state_is_written_as_real:
  "starts_with (ascii ''multiStateOutput'') ''multiState''
   \<and> spec_wire_value digits_only (ascii ''multiStateOutput'') (PInt 3) (PBool False)
       = Some (Unsigned 3)
   \<and> fst (execute_write_command digits_only accepts_all always_acks camel_case_command)
       = Some \<lparr>destination = (PStr (ascii ''192.168.1.50''), 47808),
               objectIdentifier = (PStr (ascii ''multiStateOutput''), PInt 2),
               propertyIdentifier = ascii ''presentValue'',
               propertyValue = RealValue (Finite 3)\<rparr>
   \<and> RealValue (Finite 3) \<noteq> Unsigned 3"
proof -
  have s: "starts_with (ascii ''multiStateOutput'') ''multiState''"
    "\<not> starts_with (ascii ''multiStateOutput'') ''analog''"
    "\<not> starts_with (ascii ''multiStateOutput'') ''binary''"
    by (simp_all add: starts_with_def ascii_def)
  have w: "spec_wire_value digits_only (ascii ''multiStateOutput'') (PInt 3) (PBool False)
       = Some (Unsigned 3)"
    using s by (simp add: spec_wire_value_def)
  have ok: "Address_ok accepts_all a 47808" "ObjectIdentifier_ok accepts_all tb oi" for a tb oi
    by (simp_all add: accepts_all_def)
  have f: "py_float digits_only (PInt 3) = Inr (Finite 3)"
    using py_float_small[of 3 digits_only] by simp
  have p: "prepare_value digits_only accepts_all (PStr (ascii ''multiStateOutput'')) (PInt 3)
             (PBool False) = Inr (RealValue (Finite 3))"
    using prepare_real[OF sample_kinds(4), of "PBool False" digits_only accepts_all "PInt 3"] f
    by simp
  have "fst (execute_write_command digits_only accepts_all always_acks camel_case_command)
       = Some \<lparr>destination = (PStr (ascii ''192.168.1.50''), 47808),
               objectIdentifier = (PStr (ascii ''multiStateOutput''), PInt 2),
               propertyIdentifier = ascii ''presentValue'',
               propertyValue = RealValue (Finite 3)\<rparr>"
    unfolding execute_sent write_sent
    by (simp add: camel_case_command_def s3_command_def sample_targets get_release_def ok p)
  with s(1) w show ?thesis by blast
qed

section \<open>De-duplication in the sink bridge\<close>

lemma evict_drop: "n \<le> length seen \<Longrightarrow> evict n seen = Inr (drop n seen)"
  by (induction n seen rule: evict.induct) auto

lemma on_message_seen_hit:
  "message ev = Decoded p \<Longrightarrow> dedup_key_of p \<in> set (seen_messages s) \<Longrightarrow>
   seen_messages (on_message isofmt s ev) = seen_messages s \<and>
   sensor_readings (on_message isofmt s ev) = sensor_readings s"
  by (auto simp: on_message_def Let_def split: option.splits)

lemma on_message_fresh:
  assumes "message ev = Decoded p" "parse_time isofmt (timestamp p) = Some dt"
    "dedup_key_of p \<notin> set (seen_messages s)"
  shows "seen_messages (on_message isofmt s ev) =
           (if 1000 < length (seen_messages s @ [dedup_key_of p])
            then drop 100 (seen_messages s @ [dedup_key_of p])
            else seen_messages s @ [dedup_key_of p])"
    and "sensor_readings (on_message isofmt s ev) =
           insert_sensor_reading (db_up ev) \<lparr>time_col = dt, row_payload = p\<rparr> (sensor_readings s)"
  using assms by (auto simp: on_message_def Let_def evict_drop split: option.splits)

lemma on_message_unparsed:
  "message ev = Malformed \<or> (\<exists>p. message ev = Decoded p \<and> parse_time isofmt (timestamp p) = None) \<Longrightarrow>
   seen_messages (on_message isofmt s ev) = seen_messages s \<and>
   sensor_readings (on_message isofmt s ev) = sensor_readings s"
  by (auto simp: on_message_def Let_def split: option.splits)

lemma row_keys_insert:
  "row_keys (s\<lparr>sensor_readings := insert_sensor_reading up r (sensor_readings s)\<rparr>) =
     (if up then row_keys s @ [dedup_key_of (row_payload r)] else row_keys s)"
  by (simp add: row_keys_def insert_sensor_reading_def)

lemma row_keys_cong:
  "sensor_readings s' = sensor_readings s \<Longrightarrow> row_keys s' = row_keys s"
  by (simp add: row_keys_def)

lemma on_message_bounded:
  assumes inv: "window_inv s"
    and bound: "card (set (seen_messages s) \<union> set (keys_of [ev])) \<le> 1000"
  shows "window_inv (on_message isofmt s ev)"
    and "set (seen_messages s) \<subseteq> set (seen_messages (on_message isofmt s ev))"
    and "set (seen_messages (on_message isofmt s ev)) \<subseteq> set (seen_messages s) \<union> set (keys_of [ev])"
    and "set (row_keys s) \<subseteq> set (row_keys (on_message isofmt s ev))"
proof -
  let ?s' = "on_message isofmt s ev"
  consider (same) "seen_messages ?s' = seen_messages s" "sensor_readings ?s' = sensor_readings s"
    | (fresh) p dt where "message ev = Decoded p" "parse_time isofmt (timestamp p) = Some dt"
        "dedup_key_of p \<notin> set (seen_messages s)"
  proof (cases "message ev")
    case Malformed
    then show ?thesis using on_message_unparsed[of ev isofmt s] same by blast
  next
    case (Decoded p)
    show ?thesis
    proof (cases "parse_time isofmt (timestamp p)")
      case None
      then show ?thesis using Decoded on_message_unparsed[of ev isofmt s] same by blast
    next
      case (Some dt)
      show ?thesis
      proof (cases "dedup_key_of p \<in> set (seen_messages s)")
        case True
        then show ?thesis using Decoded on_message_seen_hit[of ev p s isofmt] same by blast
      next
        case False
        then show ?thesis using Decoded Some fresh by blast
      qed
    qed
  qed
  then have "window_inv ?s' \<and> set (seen_messages s) \<subseteq> set (seen_messages ?s')
     \<and> set (seen_messages ?s') \<subseteq> set (seen_messages s) \<union> set (keys_of [ev])
     \<and> set (row_keys s) \<subseteq> set (row_keys ?s')"
  proof cases
    case same
    then show ?thesis using inv by (auto simp: window_inv_def row_keys_def)
  next
    case fresh
    let ?k = "dedup_key_of p"
    have keys: "keys_of [ev] = [?k]" using fresh(1) by simp
    have "card (set (seen_messages s) \<union> {?k}) = Suc (length (seen_messages s))"
      using inv fresh(3) by (simp add: window_inv_def distinct_card)
    then have len: "length (seen_messages s @ [?k]) \<le> 1000"
      using bound keys by simp
    have seen': "seen_messages ?s' = seen_messages s @ [?k]"
      using on_message_fresh(1)[OF fresh] len by simp
    have rows': "sensor_readings ?s' =
        insert_sensor_reading (db_up ev) \<lparr>time_col = dt, row_payload = p\<rparr> (sensor_readings s)"
      using on_message_fresh(2)[OF fresh] .
    have rk: "row_keys ?s' = (if db_up ev then row_keys s @ [?k] else row_keys s)"
      by (simp add: row_keys_def rows' insert_sensor_reading_def)
    show ?thesis
      using inv fresh(3) seen' rk keys by (auto simp: window_inv_def)
  qed
  then show "window_inv ?s'"
    and "set (seen_messages s) \<subseteq> set (seen_messages ?s')"
    and "set (seen_messages ?s') \<subseteq> set (seen_messages s) \<union> set (keys_of [ev])"
    and "set (row_keys s) \<subseteq> set (row_keys ?s')"
    by blast+
qed

lemma keys_of_Cons: "set (keys_of (ev # evs)) = set (keys_of [ev]) \<union> set (keys_of evs)"
  by (cases "message ev") auto

lemma keys_of_append: "keys_of (xs @ ys) = keys_of xs @ keys_of ys"
  by (induction xs) (auto split: mqtt_in.splits)

lemma run_sink_bounded:
  assumes "window_inv s"
    and "card (set (seen_messages s) \<union> set (keys_of evs)) \<le> 1000"
  shows "window_inv (run_sink isofmt s evs)
       \<and> set (seen_messages s) \<subseteq> set (seen_messages (run_sink isofmt s evs))
       \<and> set (seen_messages (run_sink isofmt s evs)) \<subseteq> set (seen_messages s) \<union> set (keys_of evs)
       \<and> set (row_keys s) \<subseteq> set (row_keys (run_sink isofmt s evs))"
  using assms
proof (induction evs arbitrary: s)
  case Nil
  then show ?case by simp
next
  case (Cons ev evs)
  let ?s1 = "on_message isofmt s ev"
  have fin: "finite (set (seen_messages s) \<union> set (keys_of (ev # evs)))" by simp
  have "set (seen_messages s) \<union> set (keys_of [ev])
          \<subseteq> set (seen_messages s) \<union> set (keys_of (ev # evs))"
    unfolding keys_of_Cons[of ev evs] by blast
  from card_mono[OF fin this] Cons.prems(2)
  have b1: "card (set (seen_messages s) \<union> set (keys_of [ev])) \<le> 1000"
    by linarith
  note step = on_message_bounded[OF Cons.prems(1) b1, of isofmt]
  have "set (seen_messages ?s1) \<union> set (keys_of evs)
          \<subseteq> set (seen_messages s) \<union> set (keys_of (ev # evs))"
    using step(3) unfolding keys_of_Cons[of ev evs] by blast
  from card_mono[OF fin this] Cons.prems(2)
  have b2: "card (set (seen_messages ?s1) \<union> set (keys_of evs)) \<le> 1000"
    by linarith
  from Cons.IH[OF step(1) b2] step(2,3,4)
  show ?case unfolding keys_of_Cons[of ev evs] run_sink.simps by blast
qed

lemma window_inv_start: "window_inv sink_start"
  by (simp add: window_inv_def sink_start_def row_keys_def)

lemma run_sink_append: "run_sink isofmt s (xs @ ys) = run_sink isofmt (run_sink isofmt s xs) ys"
  by (induction xs arbitrary: s) auto

text \<open>
  Claim C7. The key of a reading is its name together with the first 19 characters of the
  text of its time stamp (the whole text when it is shorter, nothing when there is
  none). For a stream of messages with at most 1000 distinct keys, the rows stored have
  distinct keys: at most one row per key. A key not seen before is appended to the keys
  seen, and when that makes more than 1000 of them, exactly the 100 oldest are dropped.
\<close>

theorem dedup_law:
  "(card (set (keys_of evs)) \<le> 1000 \<longrightarrow> distinct (row_keys (run_sink isofmt sink_start evs)))
   \<and> (\<forall>(s::sink) (ev::sink_event) p dt. message ev = Decoded p \<and> parse_time isofmt (timestamp p) = Some dt
          \<and> dedup_key_of p \<notin> set (seen_messages s)
        \<longrightarrow> seen_messages (on_message isofmt s ev) =
              (if 1000 < length (seen_messages s @ [dedup_key_of p])
               then drop 100 (seen_messages s @ [dedup_key_of p])
               else seen_messages s @ [dedup_key_of p]))"
proof (intro conjI impI allI)
  assume "card (set (keys_of evs)) \<le> 1000"
  then have "card (set (seen_messages sink_start) \<union> set (keys_of evs)) \<le> 1000"
    by (simp add: sink_start_def)
  from run_sink_bounded[OF window_inv_start this, of isofmt]
  show "distinct (row_keys (run_sink isofmt sink_start evs))"
    by (simp add: window_inv_def)
next
  fix s :: sink and ev :: sink_event and p dt
  assume "message ev = Decoded p \<and> parse_time isofmt (timestamp p) = Some dt
          \<and> dedup_key_of p \<notin> set (seen_messages s)"
  then show "seen_messages (on_message isofmt s ev) =
              (if 1000 < length (seen_messages s @ [dedup_key_of p])
               then drop 100 (seen_messages s @ [dedup_key_of p])
               else seen_messages s @ [dedup_key_of p])"
    using on_message_fresh(1)[of ev p isofmt dt s] by blast
qed

lemma on_message_rows_grow:
  "set (row_keys (on_message isofmt s ev))
     \<subseteq> set (row_keys s) \<union> (set (keys_of [ev]) - set (seen_messages s))"
  by (auto simp: on_message_def Let_def row_keys_def insert_sensor_reading_def evict_drop
      split: option.splits mqtt_in.splits sum.splits if_splits)

lemma run_sink_no_row:
  assumes "window_inv s"
    and "card (set (seen_messages s) \<union> set (keys_of evs)) \<le> 1000"
    and "k \<in> set (seen_messages s)" and "k \<notin> set (row_keys s)"
  shows "k \<notin> set (row_keys (run_sink isofmt s evs))"
  using assms
proof (induction evs arbitrary: s)
  case Nil
  then show ?case by simp
next
  case (Cons ev evs)
  let ?s1 = "on_message isofmt s ev"
  have fin: "finite (set (seen_messages s) \<union> set (keys_of (ev # evs)))" by simp
  have "set (seen_messages s) \<union> set (keys_of [ev])
          \<subseteq> set (seen_messages s) \<union> set (keys_of (ev # evs))"
    unfolding keys_of_Cons[of ev evs] by blast
  from card_mono[OF fin this] Cons.prems(2)
  have b1: "card (set (seen_messages s) \<union> set (keys_of [ev])) \<le> 1000"
    by linarith
  note step = on_message_bounded[OF Cons.prems(1) b1, of isofmt]
  have "set (seen_messages ?s1) \<union> set (keys_of evs)
          \<subseteq> set (seen_messages s) \<union> set (keys_of (ev # evs))"
    using step(3) unfolding keys_of_Cons[of ev evs] by blast
  from card_mono[OF fin this] Cons.prems(2)
  have b2: "card (set (seen_messages ?s1) \<union> set (keys_of evs)) \<le> 1000"
    by linarith
  have k1: "k \<in> set (seen_messages ?s1)" using step(2) Cons.prems(3) by blast
  have k2: "k \<notin> set (row_keys ?s1)"
    using on_message_rows_grow[of isofmt s ev] Cons.prems(3,4) by blast
  from Cons.IH[OF step(1) b2 k1 k2] show ?case by simp
qed

lemma last_survives: "100 \<le> length xs \<Longrightarrow> k \<in> set (drop 100 (xs @ [k]))"
  by simp

text \<open>
  Claim C10. The key of a reading is recorded before the insert, and a failed insert is
  swallowed: after it the key is among the keys seen and no row has been stored. A later
  message with that key stores no row whenever the key is still among the keys seen when
  it arrives, and the key is still there for as long as the stream has carried at most
  1000 distinct keys. A later message with that key that arrives after the key has been
  dropped from the keys seen, and finds the database up, is stored.
\<close>

theorem failed_insert_lost_in_window:
  fixes ev :: sink_event
  assumes msg: "message ev = Decoded p"
    and parse: "parse_time isofmt (timestamp p) \<noteq> None"
    and down: "\<not> db_up ev"
    and fresh: "dedup_key_of p \<notin> set (seen_messages (run_sink isofmt sink_start pre))"
  shows "dedup_key_of p \<in> set (seen_messages (run_sink isofmt sink_start (pre @ [ev])))
       \<and> sensor_readings (run_sink isofmt sink_start (pre @ [ev]))
           = sensor_readings (run_sink isofmt sink_start pre)
       \<and> (\<forall>post (ev2 :: sink_event) q.
             message ev2 = Decoded q \<and> dedup_key_of q = dedup_key_of p
             \<and> dedup_key_of p \<in> set (seen_messages (run_sink isofmt sink_start (pre @ ev # post)))
           \<longrightarrow> sensor_readings (run_sink isofmt sink_start (pre @ ev # post @ [ev2]))
                 = sensor_readings (run_sink isofmt sink_start (pre @ ev # post)))
       \<and> (\<forall>post. card (set (keys_of (pre @ ev # post))) \<le> 1000 \<longrightarrow>
             dedup_key_of p \<in> set (seen_messages (run_sink isofmt sink_start (pre @ ev # post)))
             \<and> dedup_key_of p \<notin> set (row_keys (run_sink isofmt sink_start (pre @ ev # post))))
       \<and> (\<forall>post (ev2 :: sink_event) q dt.
             message ev2 = Decoded q \<and> dedup_key_of q = dedup_key_of p
             \<and> parse_time isofmt (timestamp q) = Some dt \<and> db_up ev2
             \<and> dedup_key_of p \<notin> set (seen_messages (run_sink isofmt sink_start (pre @ ev # post)))
           \<longrightarrow> sensor_readings (run_sink isofmt sink_start (pre @ ev # post @ [ev2]))
                 = sensor_readings (run_sink isofmt sink_start (pre @ ev # post))
                   @ [\<lparr>time_col = dt, row_payload = q\<rparr>])"
proof (intro conjI allI impI)
  let ?k = "dedup_key_of p"
  let ?s0 = "run_sink isofmt sink_start pre"
  let ?s1 = "on_message isofmt ?s0 ev"
  obtain dt where dt: "parse_time isofmt (timestamp p) = Some dt" using parse by blast
  have e1: "run_sink isofmt sink_start (pre @ [ev]) = ?s1" by (simp add: run_sink_append)
  have seen1: "seen_messages ?s1 =
           (if 1000 < length (seen_messages ?s0 @ [?k])
            then drop 100 (seen_messages ?s0 @ [?k])
            else seen_messages ?s0 @ [?k])"
    using on_message_fresh(1)[OF msg dt fresh] .
  show in1: "?k \<in> set (seen_messages (run_sink isofmt sink_start (pre @ [ev])))"
    unfolding e1 seen1 using last_survives[of "seen_messages ?s0" ?k] by simp
  show rows1: "sensor_readings (run_sink isofmt sink_start (pre @ [ev])) = sensor_readings ?s0"
    unfolding e1 using on_message_fresh(2)[OF msg dt fresh] down
    by (simp add: insert_sensor_reading_def)
  {
    fix post and ev2 :: sink_event and q
    let ?s2 = "run_sink isofmt sink_start (pre @ ev # post)"
    assume a: "message ev2 = Decoded q \<and> dedup_key_of q = ?k \<and> ?k \<in> set (seen_messages ?s2)"
    have "run_sink isofmt sink_start (pre @ ev # post @ [ev2]) = on_message isofmt ?s2 ev2"
      using run_sink_append[of isofmt sink_start "pre @ ev # post" "[ev2]"] by simp
    then show "sensor_readings (run_sink isofmt sink_start (pre @ ev # post @ [ev2]))
                 = sensor_readings ?s2"
      using on_message_seen_hit[of ev2 q ?s2 isofmt] a by simp
  }
  {
    fix post and ev2 :: sink_event and q dt2
    let ?s2 = "run_sink isofmt sink_start (pre @ ev # post)"
    assume a: "message ev2 = Decoded q \<and> dedup_key_of q = ?k
        \<and> parse_time isofmt (timestamp q) = Some dt2 \<and> db_up ev2
        \<and> ?k \<notin> set (seen_messages ?s2)"
    have "run_sink isofmt sink_start (pre @ ev # post @ [ev2]) = on_message isofmt ?s2 ev2"
      using run_sink_append[of isofmt sink_start "pre @ ev # post" "[ev2]"] by simp
    then show "sensor_readings (run_sink isofmt sink_start (pre @ ev # post @ [ev2]))
                 = sensor_readings ?s2 @ [\<lparr>time_col = dt2, row_payload = q\<rparr>]"
      using on_message_fresh(2)[of ev2 q isofmt dt2 ?s2] a
      by (simp add: insert_sensor_reading_def)
  }
  {
    fix post
    assume bound: "card (set (keys_of (pre @ ev # post))) \<le> 1000"
    have fin: "finite (set (keys_of (pre @ ev # post)))" by simp
    have all: "set (keys_of (pre @ ev # post))
                 = set (keys_of pre) \<union> set (keys_of [ev]) \<union> set (keys_of post)"
      unfolding keys_of_append keys_of_Cons[of ev post] set_append by blast
    have kev: "keys_of [ev] = [?k]" using msg by simp
    have "set (keys_of pre) \<subseteq> set (keys_of (pre @ ev # post))" unfolding all by blast
    from card_mono[OF fin this] bound
    have "card (set (seen_messages sink_start) \<union> set (keys_of pre)) \<le> 1000"
      by (simp add: sink_start_def)
    note r0 = run_sink_bounded[OF window_inv_start this, of isofmt]
    have seen0: "set (seen_messages ?s0) \<subseteq> set (keys_of pre)"
      using r0 by (simp add: sink_start_def)
    have inv0: "window_inv ?s0" using r0 by blast
    have norow0: "?k \<notin> set (row_keys ?s0)" using inv0 fresh by (auto simp: window_inv_def)
    have "set (seen_messages ?s0) \<union> set (keys_of [ev]) \<subseteq> set (keys_of (pre @ ev # post))"
      using seen0 unfolding all by blast
    from card_mono[OF fin this] bound
    have b1: "card (set (seen_messages ?s0) \<union> set (keys_of [ev])) \<le> 1000" by linarith
    note step = on_message_bounded[OF inv0 b1, of isofmt]
    have k1: "?k \<in> set (seen_messages ?s1)" using in1 unfolding e1 .
    have norow1: "?k \<notin> set (row_keys ?s1)"
      using norow0 rows1 unfolding e1 by (simp add: row_keys_def)
    have "set (seen_messages ?s1) \<union> set (keys_of post) \<subseteq> set (keys_of (pre @ ev # post))"
      using seen0 step(3) kev unfolding all by auto
    from card_mono[OF fin this] bound
    have b2: "card (set (seen_messages ?s1) \<union> set (keys_of post)) \<le> 1000" by linarith
    have e2: "run_sink isofmt sink_start (pre @ ev # post) = run_sink isofmt ?s1 post"
      by (simp add: run_sink_append)
    show "?k \<in> set (seen_messages (run_sink isofmt sink_start (pre @ ev # post)))"
      unfolding e2 using run_sink_bounded[OF step(1) b2, of isofmt] k1 by blast
    show "?k \<notin> set (row_keys (run_sink isofmt sink_start (pre @ ev # post)))"
      unfolding e2 by (rule run_sink_no_row[OF step(1) b2 k1 norow1])
  }
qed

lemma run_sink_fresh:
  assumes "\<forall>ev \<in> set evs. \<exists>p. message ev = Decoded p \<and> parse_time isofmt (timestamp p) \<noteq> None"
    and "distinct (keys_of evs)"
    and "set (keys_of evs) \<inter> set (seen_messages s) = {}"
    and "length (seen_messages s) + length evs \<le> 1000"
  shows "seen_messages (run_sink isofmt s evs) = seen_messages s @ keys_of evs"
  using assms
proof (induction evs arbitrary: s)
  case Nil
  then show ?case by simp
next
  case (Cons ev evs)
  from Cons.prems(1) obtain p dt where p: "message ev = Decoded p"
    and dt: "parse_time isofmt (timestamp p) = Some dt" by auto
  have ks: "keys_of (ev # evs) = dedup_key_of p # keys_of evs" using p by simp
  have fresh: "dedup_key_of p \<notin> set (seen_messages s)" using Cons.prems(3) ks by auto
  have s1: "seen_messages (on_message isofmt s ev) = seen_messages s @ [dedup_key_of p]"
    using on_message_fresh(1)[OF p dt fresh] Cons.prems(4) by simp
  have "seen_messages (run_sink isofmt (on_message isofmt s ev) evs)
          = seen_messages (on_message isofmt s ev) @ keys_of evs"
    using Cons.prems ks s1 by (intro Cons.IH) auto
  then show ?case using s1 ks by simp
qed

lemma probe_simps:
  "message (probe up n) = Decoded (probe_payload n)"
  "db_up (probe up n) = up"
  by (simp_all add: probe_def)

lemma probe_parse: "parse_time isofmt (timestamp (probe_payload n)) = Some UtcNow"
  by (simp add: parse_time_def probe_payload_def)

lemma probe_key_inj: "probe_key m = probe_key n \<longleftrightarrow> m = n"
proof
  assume "probe_key m = probe_key n"
  then have "replicate (Suc m) (120::nat) = replicate (Suc n) 120"
    unfolding probe_key_def dedup_key_of_def probe_payload_def by simp
  then have "length (replicate (Suc m) (120::nat)) = length (replicate (Suc n) (120::nat))"
    by (rule arg_cong)
  then show "m = n" by simp
qed simp

lemma keys_of_probes: "keys_of (map (probe up) ns) = map probe_key ns"
  by (induction ns) (simp_all add: probe_simps probe_key_def)

lemma probes_parse:
  "\<forall>ev \<in> set (map (probe up) ns). \<exists>p. message ev = Decoded p \<and> parse_time isofmt (timestamp p) \<noteq> None"
  by (auto simp: probe_simps probe_parse)

lemma distinct_probe_keys: "distinct ns \<Longrightarrow> distinct (map probe_key ns)"
  by (simp add: distinct_map inj_on_def probe_key_inj)

lemma on_message_probe_fresh:
  assumes "probe_key n \<notin> set (seen_messages s)"
  shows "seen_messages (on_message isofmt s (probe up n)) =
           (if 1000 < length (seen_messages s @ [probe_key n])
            then drop 100 (seen_messages s @ [probe_key n])
            else seen_messages s @ [probe_key n])"
    and "row_keys (on_message isofmt s (probe up n)) =
           (if up then row_keys s @ [probe_key n] else row_keys s)"
proof -
  have m: "message (probe up n) = Decoded (probe_payload n)" by (simp add: probe_simps)
  have f: "dedup_key_of (probe_payload n) \<notin> set (seen_messages s)"
    using assms by (simp add: probe_key_def)
  show "seen_messages (on_message isofmt s (probe up n)) =
           (if 1000 < length (seen_messages s @ [probe_key n])
            then drop 100 (seen_messages s @ [probe_key n])
            else seen_messages s @ [probe_key n])"
    using on_message_fresh(1)[OF m probe_parse f] by (simp only: probe_key_def)
  show "row_keys (on_message isofmt s (probe up n)) =
           (if up then row_keys s @ [probe_key n] else row_keys s)"
    using on_message_fresh(2)[OF m probe_parse f]
    by (simp add: row_keys_def insert_sensor_reading_def probe_simps probe_key_def)
qed

text \<open>
  After a failed insert and a thousand other keys, the key has left the window and a
  later message with it is stored.
\<close>

theorem same_key_inserted_after_eviction:
  "keys_of [probe False 0] = [probe_key 0]
   \<and> row_keys (run_sink any_format sink_start [probe False 0]) = []
   \<and> probe_key 0 \<in> set (seen_messages (run_sink any_format sink_start [probe False 0]))
   \<and> keys_of [probe True 0] = [probe_key 0]
   \<and> probe_key 0 \<in> set (row_keys (run_sink any_format sink_start
                                      (probe False 0 # map (probe True) [1 ..< 1001] @ [probe True 0])))"
proof -
  let ?f = "any_format"
  let ?s1 = "on_message ?f sink_start (probe False 0)"
  let ?mid = "map (probe True) [1 ..< 1000]"
  let ?s2 = "run_sink ?f ?s1 ?mid"
  let ?s3 = "on_message ?f ?s2 (probe True 1000)"
  let ?s4 = "on_message ?f ?s3 (probe True 0)"
  have start: "probe_key 0 \<notin> set (seen_messages sink_start)" by (simp add: sink_start_def)
  have seen1: "seen_messages ?s1 = [probe_key 0]"
    using on_message_probe_fresh(1)[OF start, of ?f False] by (simp add: sink_start_def)
  have rows1: "row_keys ?s1 = []"
    using on_message_probe_fresh(2)[OF start, of ?f False] by (simp add: sink_start_def row_keys_def)
  have d: "distinct (keys_of ?mid)"
    unfolding keys_of_probes by (rule distinct_probe_keys) simp
  have i: "set (keys_of ?mid) \<inter> set (seen_messages ?s1) = {}"
    unfolding keys_of_probes seen1 by (auto simp: probe_key_inj)
  have l: "length (seen_messages ?s1) + length ?mid \<le> 1000"
    unfolding seen1 by simp
  have seen2: "seen_messages ?s2 = probe_key 0 # map probe_key [1 ..< 1000]"
    using run_sink_fresh[OF probes_parse d i l] unfolding seen1 keys_of_probes by simp
  have fresh3: "probe_key 1000 \<notin> set (seen_messages ?s2)"
    unfolding seen2 by (auto simp: probe_key_inj)
  have seen3: "seen_messages ?s3 = drop 100 (seen_messages ?s2 @ [probe_key 1000])"
    using on_message_probe_fresh(1)[OF fresh3, of ?f True] unfolding seen2 by simp
  have "set (seen_messages ?s3) \<subseteq> set (map probe_key [1 ..< 1000] @ [probe_key 1000])"
    unfolding seen3 seen2 using set_drop_subset[of 99 "map probe_key [1 ..< 1000] @ [probe_key 1000]"]
    by simp
  then have fresh4: "probe_key 0 \<notin> set (seen_messages ?s3)"
    by (auto simp: probe_key_inj)
  have rows4: "probe_key 0 \<in> set (row_keys ?s4)"
    using on_message_probe_fresh(2)[OF fresh4, of ?f True] by simp
  have split: "[1 ..< 1001] = [1 ..< 1000] @ [1000::nat]"
    using upt_Suc_append[of 1 1000] by simp
  have whole: "run_sink ?f sink_start (probe False 0 # map (probe True) [1 ..< 1001] @ [probe True 0]) = ?s4"
    unfolding split by (simp add: run_sink_append del: upt_Suc)
  have k: "keys_of [probe b 0] = [probe_key 0]" for b
    using keys_of_probes[of b "[0]"] by simp
  show ?thesis
    unfolding whole using rows1 seen1 rows4 k by simp
qed

lemma any_parse: "parse_time any_format ts \<noteq> None"
  by (simp add: parse_time_def any_format_def split: option.splits)

text \<open>
  Scenario S4: two messages within one second give one row. And a window of 1000 keys
  that takes one more has its first hundred dropped.
\<close>

theorem dedup_law_witness:
  "card (set (keys_of [s4_message ''2024-03-01T10:00:00.123Z'',
                       s4_message ''2024-03-01T10:00:00.987Z''])) \<le> 1000
   \<and> distinct (row_keys (run_sink any_format sink_start
         [s4_message ''2024-03-01T10:00:00.123Z'', s4_message ''2024-03-01T10:00:00.987Z'']))
   \<and> length (sensor_readings (run_sink any_format sink_start
         [s4_message ''2024-03-01T10:00:00.123Z'', s4_message ''2024-03-01T10:00:00.987Z''])) = 1
   \<and> seen_messages (on_message any_format
         (sink_start\<lparr>seen_messages := map probe_key [0 ..< 1000]\<rparr>) (probe True 1000))
       = drop 100 (map probe_key [0 ..< 1000] @ [probe_key 1000])"
proof -
  let ?evs = "[s4_message ''2024-03-01T10:00:00.123Z'', s4_message ''2024-03-01T10:00:00.987Z'']"
  let ?full = "sink_start\<lparr>seen_messages := map probe_key [0 ..< 1000]\<rparr>"
  note th = dedup_law[of ?evs any_format]
  have "length (keys_of ?evs) = 2" by (simp add: s4_message_def)
  then have h: "card (set (keys_of ?evs)) \<le> 1000"
    using card_length[of "keys_of ?evs"] by linarith
  have one: "length (sensor_readings (run_sink any_format sink_start ?evs)) = 1"
    by (simp add: s4_message_def on_message_def Let_def parse_time_def any_format_def
        sink_start_def dedup_key_of_def timestamp_second_def insert_sensor_reading_def ascii_def)
  have fresh: "message (probe True 1000) = Decoded (probe_payload 1000)
      \<and> parse_time any_format (timestamp (probe_payload 1000)) = Some UtcNow
      \<and> dedup_key_of (probe_payload 1000) \<notin> set (seen_messages ?full)"
  proof -
    have "probe_key 1000 \<notin> set (map probe_key [0 ..< 1000])"
      by (auto simp: probe_key_inj)
    then show ?thesis by (simp add: probe_simps probe_parse probe_key_def)
  qed
  from th have "\<forall>(s::sink) (ev::sink_event) p dt. message ev = Decoded p
          \<and> parse_time any_format (timestamp p) = Some dt
          \<and> dedup_key_of p \<notin> set (seen_messages s)
        \<longrightarrow> seen_messages (on_message any_format s ev) =
              (if 1000 < length (seen_messages s @ [dedup_key_of p])
               then drop 100 (seen_messages s @ [dedup_key_of p])
               else seen_messages s @ [dedup_key_of p])" by blast
  from this[rule_format, OF fresh]
  have ev: "seen_messages (on_message any_format ?full (probe True 1000))
       = drop 100 (map probe_key [0 ..< 1000] @ [probe_key 1000])"
    by (simp add: probe_key_def)
  from th h one ev show ?thesis by blast
qed

text \<open>A reading whose insert fails, met again two messages later, stays without a row.\<close>

theorem failed_insert_lost_in_window_witness:
  "message (probe False 0) = Decoded (probe_payload 0)
   \<and> parse_time any_format (timestamp (probe_payload 0)) \<noteq> None
   \<and> \<not> db_up (probe False 0)
   \<and> dedup_key_of (probe_payload 0)
        \<notin> set (seen_messages (run_sink any_format sink_start [probe True 1]))
   \<and> card (set (keys_of ([probe True 1] @ probe False 0 # [probe True 0, probe True 2]))) \<le> 1000
   \<and> dedup_key_of (probe_payload 0)
        \<in> set (seen_messages (run_sink any_format sink_start ([probe True 1] @ [probe False 0])))
   \<and> sensor_readings (run_sink any_format sink_start ([probe True 1] @ [probe False 0]))
        = sensor_readings (run_sink any_format sink_start [probe True 1])
   \<and> dedup_key_of (probe_payload 0)
        \<notin> set (row_keys (run_sink any_format sink_start
                  ([probe True 1] @ probe False 0 # [probe True 0, probe True 2])))"
proof -
  have h1: "message (probe False 0) = Decoded (probe_payload 0)" by (simp add: probe_simps)
  have h2: "parse_time any_format (timestamp (probe_payload 0)) \<noteq> None" by (rule any_parse)
  have h3: "\<not> db_up (probe False 0)" by (simp add: probe_simps)
  have "probe_key 1 \<notin> set (seen_messages sink_start)" by (simp add: sink_start_def)
  from on_message_probe_fresh(1)[OF this, of any_format True]
  have "seen_messages (run_sink any_format sink_start [probe True 1]) = [probe_key 1]"
    by (simp add: sink_start_def)
  then have h4: "dedup_key_of (probe_payload 0)
        \<notin> set (seen_messages (run_sink any_format sink_start [probe True 1]))"
    using probe_key_inj[of 0 1] by (simp add: probe_key_def)
  have "length (keys_of ([probe True 1] @ probe False 0 # [probe True 0, probe True 2])) = 4"
    by (simp add: probe_simps)
  then have h5: "card (set (keys_of ([probe True 1] @ probe False 0 # [probe True 0, probe True 2]))) \<le> 1000"
    using card_length[of "keys_of ([probe True 1] @ probe False 0 # [probe True 0, probe True 2])"]
    by linarith
  from failed_insert_lost_in_window[OF h1 h2 h3 h4] h1 h2 h3 h4 h5
  show ?thesis by blast
qed

lemma s4_rows:
  "map row_payload (sensor_readings (run_sink any_format sink_start [s4_message a, s4_message b]))
     = (if timestamp_second (Some (ascii a)) = timestamp_second (Some (ascii b))
        then [\<lparr>haystackName = Some (ascii ''site.ahu.1.sensor.temp.air.supply''),
                timestamp = Some (ascii a), reading_value = PFloat (Finite 123)\<rparr>]
        else [\<lparr>haystackName = Some (ascii ''site.ahu.1.sensor.temp.air.supply''),
                timestamp = Some (ascii a), reading_value = PFloat (Finite 123)\<rparr>,
              \<lparr>haystackName = Some (ascii ''site.ahu.1.sensor.temp.air.supply''),
                timestamp = Some (ascii b), reading_value = PFloat (Finite 123)\<rparr>])"
  by (simp add: s4_message_def on_message_def Let_def parse_time_def any_format_def
      sink_start_def dedup_key_of_def insert_sensor_reading_def)

lemma same_instant:
  "instant_second (ascii ''2024-03-01T10:00:00Z'') = Some 1709287200"
  "instant_second (ascii ''2024-03-01T18:00:00+08:00'') = Some 1709287200"
  by code_simp+

text \<open>
  One name and one instant, 10:00:00 UTC on 2024-03-01, written once with \<^verbatim>\<open>Z\<close> and once
  with the offset of UTC+8: the two messages have one key in the specification, two
  different keys in the bridge, and two rows are stored.
\<close>

theorem same_instant_two_rows:
  "card (set (keys_of [s4_message ''2024-03-01T10:00:00Z'',
                       s4_message ''2024-03-01T18:00:00+08:00''])) \<le> 1000
   \<and> map (spec_key_of \<circ> row_payload)
        (sensor_readings (run_sink any_format sink_start
           [s4_message ''2024-03-01T10:00:00Z'', s4_message ''2024-03-01T18:00:00+08:00'']))
      = [(Some (ascii ''site.ahu.1.sensor.temp.air.supply''), Some 1709287200),
         (Some (ascii ''site.ahu.1.sensor.temp.air.supply''), Some 1709287200)]
   \<and> \<not> distinct (map (spec_key_of \<circ> row_payload)
        (sensor_readings (run_sink any_format sink_start
           [s4_message ''2024-03-01T10:00:00Z'', s4_message ''2024-03-01T18:00:00+08:00''])))"
proof -
  let ?evs = "[s4_message ''2024-03-01T10:00:00Z'', s4_message ''2024-03-01T18:00:00+08:00'']"
  have "length (keys_of ?evs) = 2" by (simp add: s4_message_def)
  then have h: "card (set (keys_of ?evs)) \<le> 1000"
    using card_length[of "keys_of ?evs"] by linarith
  have d: "timestamp_second (Some (ascii ''2024-03-01T10:00:00Z''))
             \<noteq> timestamp_second (Some (ascii ''2024-03-01T18:00:00+08:00''))"
    by (simp add: timestamp_second_def ascii_def)
  have "map (spec_key_of \<circ> row_payload) (sensor_readings (run_sink any_format sink_start ?evs))
      = map spec_key_of (map row_payload (sensor_readings (run_sink any_format sink_start ?evs)))"
    by simp
  also have "\<dots> = [(Some (ascii ''site.ahu.1.sensor.temp.air.supply''), Some 1709287200),
         (Some (ascii ''site.ahu.1.sensor.temp.air.supply''), Some 1709287200)]"
    unfolding s4_rows using d by (simp add: spec_key_of_def same_instant)
  finally have r: "map (spec_key_of \<circ> row_payload)
        (sensor_readings (run_sink any_format sink_start ?evs))
      = [(Some (ascii ''site.ahu.1.sensor.temp.air.supply''), Some 1709287200),
         (Some (ascii ''site.ahu.1.sensor.temp.air.supply''), Some 1709287200)]" .
  have "\<not> distinct (map (spec_key_of \<circ> row_payload)
        (sensor_readings (run_sink any_format sink_start ?evs)))"
    unfolding r by simp
  with r h show ?thesis by blast
qed

end
